theory Spec2Isabelle
  imports Complex_Main "HOL-Library.AList" "HOL-Library.Sublist"
begin

section \<open>Shared vocabulary\<close>

text \<open>
  JavaScript strings are modelled as \<open>string\<close>. A property read that may yield
  \<open>undefined\<close> is a \<open>string option\<close>; \<open>truthy\<close> is JavaScript truthiness on such a
  value (neither \<open>undefined\<close> nor the empty string) and \<open>js_or\<close> is the operator \<open>||\<close>.
\<close>

definition truthy :: "string option \<Rightarrow> bool" where
  "truthy v = (case v of None \<Rightarrow> False | Some s \<Rightarrow> s \<noteq> [])"

definition js_or :: "string option \<Rightarrow> string option \<Rightarrow> string option" where
  "js_or a b = (if truthy a then a else b)"

text \<open>The outcome of one \<open>sendMail\<close> call: the promise resolves, or rejects with an
  error whose \<open>message\<close> is the carried string.\<close>

datatype send_outcome = Sent | Send_failed string

text \<open>The outcome of one \<open>addDoc\<close> call on the document store.\<close>

datatype audit_outcome = Logged | Log_failed string

section \<open>Number to string\<close>

text \<open>\<open>Number.prototype.toString\<close> on an integral value below \<open>10^21\<close>: the decimal
  digits, most significant first, with a leading minus sign for a negative value.\<close>

definition digit_char :: "nat \<Rightarrow> char" where
  "digit_char d = ''0123456789'' ! d"

fun digits :: "nat \<Rightarrow> string" where
  "digits n = (if n < 10 then [digit_char n] else digits (n div 10) @ [digit_char (n mod 10)])"

declare digits.simps [simp del]

definition toString :: "int \<Rightarrow> string" where
  "toString n = (if n < 0 then CHR ''-'' # digits (nat (- n)) else digits (nat n))"

definition is_digit :: "char \<Rightarrow> bool" where
  "is_digit c = (c \<in> set ''0123456789'')"

text \<open>The number a string of decimal digits denotes (\<open>None\<close> on any other character or
  on the empty string).\<close>

definition digit_value :: "char \<Rightarrow> nat option" where
  "digit_value c =
     map_of [(CHR ''0'', 0), (CHR ''1'', 1), (CHR ''2'', 2), (CHR ''3'', 3), (CHR ''4'', 4),
             (CHR ''5'', 5), (CHR ''6'', 6), (CHR ''7'', 7), (CHR ''8'', 8), (CHR ''9'', 9)] c"

fun decimal_acc :: "nat \<Rightarrow> string \<Rightarrow> nat option" where
  "decimal_acc acc [] = Some acc"
| "decimal_acc acc (c # cs) =
     (case digit_value c of None \<Rightarrow> None | Some d \<Rightarrow> decimal_acc (10 * acc + d) cs)"

definition decimal_value :: "string \<Rightarrow> nat option" where
  "decimal_value s = (if s = [] then None else decimal_acc 0 s)"

section \<open>OTP store and routes\<close>

text \<open>
  \<open>const otpStore = {}\<close>: a process-wide plain object keyed by email address, read
  and written as \<open>otpStore[email]\<close>. Such an object has its own properties and, behind
  them, what it inherits. Its own properties are a list of pairs, in the order in which
  \<open>Object.keys\<close> enumerates them (no handler's outcome depends on that order). What it
  inherits is \<open>Object.prototype\<close>, and in front of that the record that an assignment
  under the key \<open>__proto__\<close> has installed as the object's prototype, if there was one:
  that assignment runs the inherited setter and creates no own property. Emails and
  codes are strings, as in the interface of the routes. \<open>Date.now()\<close> is an input,
  in milliseconds.
\<close>

record otp_record =
  otp :: string
  expiresAt :: int

record otp_store =
  own :: "(string \<times> otp_record) list"
  proto :: "otp_record option"

definition empty_store :: otp_store where
  "empty_store = \<lparr>own = [], proto = None\<rparr>"

text \<open>
  What a read \<open>otpStore[key]\<close> can yield: nothing, a stored record, an object that
  belongs to the platform (a method of \<open>Object.prototype\<close>, or \<open>Object.prototype\<close>
  itself), or, read through an installed prototype record, that record's code or its
  expiry time.
\<close>

datatype js_value =
    Undefined
  | Record otp_record
  | Builtin_object
  | Str string
  | Num int

text \<open>The function-valued members of \<open>Object.prototype\<close>; its one other member is the
  accessor \<open>__proto__\<close>.\<close>

definition object_prototype_methods :: "string list" where
  "object_prototype_methods =
     [''constructor'', ''__defineGetter__'', ''__defineSetter__'', ''hasOwnProperty'',
      ''__lookupGetter__'', ''__lookupSetter__'', ''isPrototypeOf'', ''propertyIsEnumerable'',
      ''toString'', ''valueOf'', ''toLocaleString'']"

text \<open>
  The part of a read that goes past the own properties. The accessor \<open>__proto__\<close>
  answers with the object's prototype: the installed record, or \<open>Object.prototype\<close>.
  Any other key is looked up in the installed record (with its two fields) and then in
  \<open>Object.prototype\<close>.
\<close>

definition inherited :: "otp_store \<Rightarrow> string \<Rightarrow> js_value" where
  "inherited store key =
     (if key = ''__proto__'' then
        (case proto store of Some r \<Rightarrow> Record r | None \<Rightarrow> Builtin_object)
      else
        (case proto store of
           Some r \<Rightarrow>
             if key = ''otp'' then Str (otp r)
             else if key = ''expiresAt'' then Num (expiresAt r)
             else if key \<in> set object_prototype_methods then Builtin_object
             else Undefined
         | None \<Rightarrow>
             if key \<in> set object_prototype_methods then Builtin_object else Undefined))"

text \<open>
  \<open>otpStore[key]\<close>: the own property if there is one, else what is inherited. The
  object never has an own property named \<open>__proto__\<close>, so that key is always answered
  by the accessor.
\<close>

definition store_get :: "otp_store \<Rightarrow> string \<Rightarrow> js_value" where
  "store_get store key =
     (if key = ''__proto__'' then inherited store key
      else
        (case map_of (own store) key of
           Some r \<Rightarrow> Record r
         | None \<Rightarrow> inherited store key))"

text \<open>\<open>otpStore[key] = r\<close>: under \<open>__proto__\<close> the setter makes \<open>r\<close> the prototype;
  under any other key the own property is replaced or added.\<close>

definition store_set :: "otp_store \<Rightarrow> string \<Rightarrow> otp_record \<Rightarrow> otp_store" where
  "store_set store key r =
     (if key = ''__proto__'' then store\<lparr>proto := Some r\<rparr>
      else store\<lparr>own := AList.update key r (own store)\<rparr>)"

text \<open>\<open>delete otpStore[key]\<close> removes an own property and nothing else.\<close>

definition store_delete :: "otp_store \<Rightarrow> string \<Rightarrow> otp_store" where
  "store_delete store key =
     (if key = ''__proto__'' then store
      else store\<lparr>own := AList.delete key (own store)\<rparr>)"

text \<open>Truthiness of a value, and the reads \<open>v.expiresAt\<close> and \<open>v.otp\<close>, which are
  \<open>undefined\<close> (\<open>None\<close>) on everything but a record.\<close>

definition js_truthy :: "js_value \<Rightarrow> bool" where
  "js_truthy v =
     (case v of
        Undefined \<Rightarrow> False
      | Record r \<Rightarrow> True
      | Builtin_object \<Rightarrow> True
      | Str s \<Rightarrow> s \<noteq> []
      | Num n \<Rightarrow> n \<noteq> 0)"

definition get_expiresAt :: "js_value \<Rightarrow> int option" where
  "get_expiresAt v = (case v of Record r \<Rightarrow> Some (expiresAt r) | _ \<Rightarrow> None)"

definition get_otp :: "js_value \<Rightarrow> string option" where
  "get_otp v = (case v of Record r \<Rightarrow> Some (otp r) | _ \<Rightarrow> None)"

record otp_reply =
  status :: nat
  success :: bool
  message :: string

definition reply :: "nat \<Rightarrow> bool \<Rightarrow> string \<Rightarrow> otp_reply" where
  "reply st ok msg = \<lparr>status = st, success = ok, message = msg\<rparr>"

text \<open>
  \<open>POST /send-otp\<close> of the unified server (server.js 1071-1122; the copy at
  part_000 663-717 has the same control flow). \<open>n\<close> is the value of
  \<open>Math.floor(100000 + Math.random() * 900000)\<close>, \<open>mail\<close> the outcome of \<open>sendMail\<close>,
  \<open>db\<close> whether the document store was initialised and \<open>audit\<close> the outcome of
  \<open>addDoc\<close> should it be called. The record is written before the mail is sent.
\<close>

definition send_otp ::
  "otp_store \<Rightarrow> string \<Rightarrow> int \<Rightarrow> int \<Rightarrow> send_outcome \<Rightarrow> bool \<Rightarrow> audit_outcome
     \<Rightarrow> otp_reply \<times> otp_store" where
  "send_otp store email n now mail db audit =
     (if email = [] then (reply 400 False ''Email required'', store)
      else
        let code = toString n;
            expires = now + 5 * 60 * 1000;
            store' = store_set store email \<lparr>otp = code, expiresAt = expires\<rparr>
        in (case mail of
              Send_failed err \<Rightarrow> (reply 500 False ''Failed to send OTP'', store')
            | Sent \<Rightarrow>
                (if db then
                   (case audit of
                      Logged \<Rightarrow> (reply 200 True ''OTP sent'', store')
                    | Log_failed e \<Rightarrow> (reply 200 True ''OTP sent'', store'))
                 else (reply 200 True ''OTP sent'', store'))))"

text \<open>
  \<open>POST /send-otp\<close> of mail.js (server.js 1210-1258): \<open>addDoc\<close> is awaited inside the
  same \<open>try\<close> block as \<open>sendMail\<close>, with no guard and no handler of its own, so its
  rejection reaches the outer \<open>catch\<close>.
\<close>

definition send_otp_mailjs ::
  "otp_store \<Rightarrow> string \<Rightarrow> int \<Rightarrow> int \<Rightarrow> send_outcome \<Rightarrow> audit_outcome
     \<Rightarrow> otp_reply \<times> otp_store" where
  "send_otp_mailjs store email n now mail audit =
     (if email = [] then (reply 400 False ''Email required'', store)
      else
        let code = toString n;
            expires = now + 5 * 60 * 1000;
            store' = store_set store email \<lparr>otp = code, expiresAt = expires\<rparr>
        in (case mail of
              Send_failed err \<Rightarrow> (reply 500 False ''Failed to send OTP'', store')
            | Sent \<Rightarrow>
                (case audit of
                   Logged \<Rightarrow> (reply 200 True ''OTP sent'', store')
                 | Log_failed e \<Rightarrow> (reply 500 False ''Failed to send OTP'', store'))))"

text \<open>
  \<open>POST /verify-otp\<close> (server.js 1124-1142, 1261-1281; part_000 720-738).
  \<open>Date.now() > record.expiresAt\<close> is false when the right side is \<open>undefined\<close>, and
  \<open>record.otp !== otp\<close> is true when the left side is.
\<close>

definition verify_otp ::
  "otp_store \<Rightarrow> string \<Rightarrow> string \<Rightarrow> int \<Rightarrow> otp_reply \<times> otp_store" where
  "verify_otp store email code now =
     (if email = [] \<or> code = [] then (reply 400 False ''Missing email or otp'', store)
      else
        let record = store_get store email
        in if \<not> js_truthy record then
             (reply 200 False ''OTP not found. Request a new code.'', store)
           else if (case get_expiresAt record of Some e \<Rightarrow> now > e | None \<Rightarrow> False) then
             (reply 200 False ''OTP expired. Please request a new one.'',
              store_delete store email)
           else if get_otp record \<noteq> Some code then
             (reply 200 False ''Invalid OTP. Please try again.'', store)
           else (reply 200 True ''OTP verified'', store_delete store email))"

text \<open>
  The periodic sweep (server.js 1145-1150): a loop over the snapshot
  \<open>Object.keys(otpStore)\<close>, the names of the own properties. Reading \<open>expiresAt\<close> of
  \<open>undefined\<close> would raise a TypeError; that branch is \<open>None\<close>. \<open>undefined <= now\<close> is
  false.
\<close>

fun sweep_keys :: "int \<Rightarrow> string list \<Rightarrow> otp_store \<Rightarrow> otp_store option" where
  "sweep_keys now [] store = Some store"
| "sweep_keys now (e # es) store =
     (case store_get store e of
        Undefined \<Rightarrow> None
      | v \<Rightarrow>
          sweep_keys now es
            (if (case get_expiresAt v of Some x \<Rightarrow> x \<le> now | None \<Rightarrow> False)
             then store_delete store e else store))"

definition sweep :: "int \<Rightarrow> otp_store \<Rightarrow> otp_store option" where
  "sweep now store = sweep_keys now (map fst (own store)) store"

section \<open>OTP code generation\<close>

text \<open>
  \<open>Math.floor(100000 + Math.random() * 900000).toString()\<close> (server.js 1075, 1214;
  part_000 667). The product and the sum are binary64 operations: each is the exact real
  result passed through the rounding operator \<open>rnd\<close>, which is a parameter. \<open>r\<close> is the
  value of \<open>Math.random()\<close>.
\<close>

definition otp_number :: "(real \<Rightarrow> real) \<Rightarrow> real \<Rightarrow> int" where
  "otp_number rnd r = \<lfloor>rnd (100000 + rnd (r * 900000))\<rfloor>"

definition otp_code :: "(real \<Rightarrow> real) \<Rightarrow> real \<Rightarrow> string" where
  "otp_code rnd r = toString (otp_number rnd r)"

text \<open>
  What is used of IEEE 754 round-to-nearest on binary64: it is monotone, it leaves every
  integer of magnitude at most \<open>2^53\<close> alone, and on the binade from \<open>2^19\<close> to \<open>2^20\<close>
  (spacing \<open>2^-33\<close>) its result is a multiple of \<open>2^-33\<close> at most half a spacing away
  from its argument.
\<close>

definition binary64_rounding :: "(real \<Rightarrow> real) \<Rightarrow> bool" where
  "binary64_rounding rnd \<longleftrightarrow>
     (\<forall>x y. x \<le> y \<longrightarrow> rnd x \<le> rnd y)
   \<and> (\<forall>n::int. \<bar>n\<bar> \<le> 2 ^ 53 \<longrightarrow> rnd (of_int n) = of_int n)
   \<and> (\<forall>x. 2 ^ 19 \<le> x \<and> x \<le> 2 ^ 20 \<longrightarrow>
          (\<exists>k::int. rnd x = of_int k / 2 ^ 33) \<and> \<bar>rnd x - x\<bar> \<le> 1 / 2 ^ 34)"

text \<open>A rounding operator on the grid of spacing \<open>2^-33\<close>, used to instantiate \<open>rnd\<close>.\<close>

definition round33 :: "real \<Rightarrow> real" where
  "round33 x = of_int (round (x * 2 ^ 33)) / 2 ^ 33"

section \<open>Retrying fetch\<close>

text \<open>
  \<open>fetchWithBackoff\<close> (server.js 211-250, 675-707; part_000 488-520). The remote end is
  a function from the number of the fetch call (counted from 0) to what that call
  yields: a rejected promise, or a response with its status and the outcome of
  \<open>response.json()\<close> (\<open>Inl\<close> when parsing the body rejects).
\<close>

datatype fetch_outcome =
    Network_error string
  | Http_response nat "string + string"

datatype error_data = Parsed string | Unknown_error

datatype thrown =
    Fetch_error string
  | Json_error string
  | Status_error error_data
  | Retries_exhausted

datatype fetch_result = Returned string | Thrown thrown

datatype step = Done fetch_result | Retry

text \<open>
  One pass through the body of the \<open>while\<close> loop. Whatever is thrown inside the \<open>try\<close>
  block, including the error built in the branch for the other statuses, arrives in the
  \<open>catch\<close> block, which rethrows it only on the last attempt.
\<close>

definition catch_block :: "int \<Rightarrow> int \<Rightarrow> thrown \<Rightarrow> step" where
  "catch_block maxRetries attempt err =
     (if attempt \<ge> maxRetries - 1 then Done (Thrown err) else Retry)"

definition try_block :: "int \<Rightarrow> int \<Rightarrow> fetch_outcome \<Rightarrow> step" where
  "try_block maxRetries attempt out =
     (case out of
        Network_error e \<Rightarrow> catch_block maxRetries attempt (Fetch_error e)
      | Http_response st body \<Rightarrow>
          if 200 \<le> st \<and> st \<le> 299 then
            (case body of
               Inr json \<Rightarrow> Done (Returned json)
             | Inl e \<Rightarrow> catch_block maxRetries attempt (Json_error e))
          else if st = 429 \<or> (st \<ge> 500 \<and> st < 600) then Retry
          else
            catch_block maxRetries attempt
              (Status_error (case body of Inr json \<Rightarrow> Parsed json | Inl e \<Rightarrow> Unknown_error)))"

text \<open>The loop: both retry paths wait \<open>backoffTime\<close>, double it and count the attempt.
  The result carries the list of waits, in order.\<close>

function fetch_loop ::
  "(nat \<Rightarrow> fetch_outcome) \<Rightarrow> int \<Rightarrow> int \<Rightarrow> int \<Rightarrow> int list \<Rightarrow> fetch_result \<times> int list" where
  "fetch_loop remote maxRetries attempt backoffTime waits =
     (if attempt < maxRetries then
        (case try_block maxRetries attempt (remote (nat attempt)) of
           Done res \<Rightarrow> (res, waits)
         | Retry \<Rightarrow>
             fetch_loop remote maxRetries (attempt + 1) (backoffTime * 2) (waits @ [backoffTime]))
      else (Thrown Retries_exhausted, waits))"
  by pat_completeness auto
termination
  by (relation "measure (\<lambda>(remote, maxRetries, attempt, backoffTime, waits). nat (maxRetries - attempt))")
     auto

declare fetch_loop.simps [simp del]

definition fetchWithBackoff :: "(nat \<Rightarrow> fetch_outcome) \<Rightarrow> int \<Rightarrow> fetch_result \<times> int list" where
  "fetchWithBackoff remote maxRetries = fetch_loop remote maxRetries 0 1000 []"

section \<open>Name substitution\<close>

text \<open>
  \<open>html.replace(/\[Name\]/g, name)\<close> with a string as replacement: every match, found
  from left to right without overlap, is replaced by the expansion of the replacement
  text, in which \<open>$$\<close> stands for a dollar sign, \<open>$&\<close> for the matched text, \<open>$`\<close> for
  the text before the match and \<open>$'\<close> for the text after it. The pattern has no capture
  group, so a dollar sign before anything else stands for itself.
\<close>

definition name_token :: string where
  "name_token = ''[Name]''"

fun get_substitution :: "string \<Rightarrow> string \<Rightarrow> string \<Rightarrow> string \<Rightarrow> string" where
  "get_substitution matched pre post [] = []"
| "get_substitution matched pre post [c] = [c]"
| "get_substitution matched pre post (c # d # cs) =
     (if c = CHR 0x24 then
        (if d = CHR 0x24 then CHR 0x24 # get_substitution matched pre post cs
         else if d = CHR 0x26 then matched @ get_substitution matched pre post cs
         else if d = CHR 0x60 then pre @ get_substitution matched pre post cs
         else if d = CHR 0x27 then post @ get_substitution matched pre post cs
         else c # get_substitution matched pre post (d # cs))
      else c # get_substitution matched pre post (d # cs))"

fun replace_from :: "string \<Rightarrow> string \<Rightarrow> string \<Rightarrow> string" where
  "replace_from pre [] replacement = []"
| "replace_from pre (c # cs) replacement =
     (if prefix name_token (c # cs) then
        get_substitution name_token pre (drop 5 cs) replacement
          @ replace_from (pre @ name_token) (drop 5 cs) replacement
      else c # replace_from (pre @ [c]) cs replacement)"

definition replace_name :: "string \<Rightarrow> string \<Rightarrow> string" where
  "replace_name html name = replace_from [] html name"

section \<open>Recipient rows\<close>

text \<open>A row of the parsed CSV: an object from column names to strings.\<close>

type_synonym row = "string \<rightharpoonup> string"

definition recipient_email :: "row \<Rightarrow> string option" where
  "recipient_email r = js_or (r ''email'') (r ''Email'')"

text \<open>\<open>r.name || r.Name || dflt\<close>, with \<open>dflt\<close> the empty string in /send-csv and
  \<open>"User"\<close> in /send-mails.\<close>

definition recipient_name :: "row \<Rightarrow> string \<Rightarrow> string" where
  "recipient_name r dflt =
     (case js_or (js_or (r ''name'') (r ''Name'')) (Some dflt) of
        Some s \<Rightarrow> s
      | None \<Rightarrow> dflt)"

definition personalize_csv :: "string \<Rightarrow> row \<Rightarrow> string" where
  "personalize_csv html r = replace_name html (recipient_name r [])"

definition personalize_mails :: "string \<Rightarrow> row \<Rightarrow> string" where
  "personalize_mails html r = replace_name html (recipient_name r ''User'')"

section \<open>Bulk send loops\<close>

text \<open>
  A message handed to \<open>sendMail\<close>. An inline attachment carries its bytes and a
  content-id; a generic attachment names a file path.
\<close>

datatype attachment =
    Inline_attachment string string string string
  | File_attachment string string string

record mail =
  mail_from :: string
  mail_to :: string
  mail_subject :: string
  mail_html :: string
  mail_attachments :: "attachment list option"

text \<open>The mail transport: one call takes the message and the transport's state and
  yields the outcome and the next state.\<close>

type_synonym 't transport = "mail \<Rightarrow> 't \<Rightarrow> send_outcome \<times> 't"

datatype detail =
    Detail_sent (detail_email: string)
  | Detail_failed (detail_email: string) (detail_error: string)

record results =
  sent :: nat
  failed :: nat
  failures :: "(string \<times> string) list"
  details :: "detail list"

definition no_results :: results where
  "no_results = \<lparr>sent = 0, failed = 0, failures = [], details = []\<rparr>"

text \<open>What the loop of the unified server reads from the request: subject, HTML body,
  sender name, the sender address from the environment, the prepared inline
  attachments and the uploaded generic attachments.\<close>

record batch =
  b_subject :: string
  b_html :: string
  b_fromName :: string
  b_user :: string
  b_inline :: "attachment list"
  b_generic :: "attachment list"

definition from_header :: "string \<Rightarrow> string \<Rightarrow> string" where
  "from_header fromName user = [CHR 0x22] @ fromName @ [CHR 0x22] @ '' <'' @ user @ ''>''"

text \<open>
  The message built for one recipient in the unified server (server.js 1016-1034): the
  body with the name substituted, and the inline attachments followed by the generic
  ones, or no attachment field when there are none.
\<close>

definition csv_mail :: "batch \<Rightarrow> row \<Rightarrow> string \<Rightarrow> mail" where
  "csv_mail b r email =
     (let personalizedHtml = personalize_csv (b_html b) r;
          attachmentsForSend = b_inline b @ b_generic b
      in \<lparr>mail_from = from_header (b_fromName b) (b_user b),
          mail_to = email,
          mail_subject = b_subject b,
          mail_html = personalizedHtml,
          mail_attachments =
            (if attachmentsForSend \<noteq> [] then Some attachmentsForSend else None)\<rparr>)"

text \<open>
  The body of the \<open>for\<close> loop of \<open>POST /send-csv\<close> in the unified server
  (server.js 1009-1045). The pause after each message changes neither the counters nor
  the transport and is left out.
\<close>

definition send_csv_step :: "'t transport \<Rightarrow> batch \<Rightarrow> row \<Rightarrow> results \<times> 't \<Rightarrow> results \<times> 't" where
  "send_csv_step tr b r st =
     (case recipient_email r of
        None \<Rightarrow> st
      | Some email \<Rightarrow>
          if email = [] then st
          else
            let res = fst st
            in (case tr (csv_mail b r email) (snd st) of
                  (Sent, t') \<Rightarrow>
                    (res\<lparr>sent := sent res + 1,
                         details := details res @ [Detail_sent email]\<rparr>, t')
                | (Send_failed msg, t') \<Rightarrow>
                    (res\<lparr>failed := failed res + 1,
                         failures := failures res @ [(email, msg)],
                         details := details res @ [Detail_failed email msg]\<rparr>, t')))"

primrec send_csv_loop :: "'t transport \<Rightarrow> batch \<Rightarrow> row list \<Rightarrow> results \<times> 't \<Rightarrow> results \<times> 't" where
  "send_csv_loop tr b [] st = st"
| "send_csv_loop tr b (r # rs) st = send_csv_loop tr b rs (send_csv_step tr b r st)"

text \<open>
  The same loop in the earlier standalone sender (part_000 185-230). The HTML is the
  substituted body inside a frame whose text before and after it (\<open>f_before\<close>,
  \<open>f_after\<close>: the wrapper with the logo and banner blocks) does not depend on the
  recipient. There is no \<open>details\<close> list and there are no generic attachments; the
  attachment list is always passed.
\<close>

record frame =
  f_subject :: string
  f_html :: string
  f_fromName :: string
  f_user :: string
  f_inline :: "attachment list"
  f_before :: string
  f_after :: string

definition standalone_mail :: "frame \<Rightarrow> row \<Rightarrow> string \<Rightarrow> mail" where
  "standalone_mail f r email =
     (let personalizedHtml = f_before f @ personalize_csv (f_html f) r @ f_after f
      in \<lparr>mail_from = from_header (f_fromName f) (f_user f),
          mail_to = email,
          mail_subject = f_subject f,
          mail_html = personalizedHtml,
          mail_attachments = Some (f_inline f)\<rparr>)"

definition send_csv_step_standalone ::
  "'t transport \<Rightarrow> frame \<Rightarrow> row \<Rightarrow> results \<times> 't \<Rightarrow> results \<times> 't" where
  "send_csv_step_standalone tr f r st =
     (case recipient_email r of
        None \<Rightarrow> st
      | Some email \<Rightarrow>
          if email = [] then st
          else
            let res = fst st
            in (case tr (standalone_mail f r email) (snd st) of
                  (Sent, t') \<Rightarrow> (res\<lparr>sent := sent res + 1\<rparr>, t')
                | (Send_failed msg, t') \<Rightarrow>
                    (res\<lparr>failed := failed res + 1,
                         failures := failures res @ [(email, msg)]\<rparr>, t')))"

primrec send_csv_loop_standalone ::
  "'t transport \<Rightarrow> frame \<Rightarrow> row list \<Rightarrow> results \<times> 't \<Rightarrow> results \<times> 't" where
  "send_csv_loop_standalone tr f [] st = st"
| "send_csv_loop_standalone tr f (r # rs) st =
     send_csv_loop_standalone tr f rs (send_csv_step_standalone tr f r st)"

text \<open>
  The handler of \<open>POST /send-csv\<close> in the unified server (server.js 863-1065).
  \<open>req_csvFile\<close> is \<open>None\<close> when no CSV file was uploaded, and otherwise what reading it
  gives: a stream error or the rows. \<open>prep\<close> is the outcome of preparing the inline
  images (server.js 896-998): the error and details of a 400 response, or the
  attachments. Removing the uploaded files after the loop cannot throw (every removal
  has its own handler) and does not touch the summary.
\<close>

datatype csv_body = Csv_error string "string option" | Csv_summary results

record csv_response =
  csv_status :: nat
  csv_body :: csv_body

record csv_request =
  req_csvFile :: "(string + row list) option"
  req_subject :: "string option"
  req_html :: "string option"
  req_fromName :: "string option"

definition send_csv ::
  "'t transport \<Rightarrow> string \<Rightarrow> csv_request \<Rightarrow> (string \<times> string) + attachment list
     \<Rightarrow> attachment list \<Rightarrow> 't \<Rightarrow> csv_response" where
  "send_csv tr user req prep generic t0 =
     (case req_csvFile req of
        None \<Rightarrow> \<lparr>csv_status = 400, csv_body = Csv_error ''CSV file is required.'' None\<rparr>
      | Some csv \<Rightarrow>
          if \<not> truthy (req_subject req) \<or> \<not> truthy (req_html req) then
            \<lparr>csv_status = 400, csv_body = Csv_error ''Missing subject or HTML body.'' None\<rparr>
          else
            (case csv of
               Inl err \<Rightarrow>
                 \<lparr>csv_status = 500, csv_body = Csv_error ''Internal server error'' (Some err)\<rparr>
             | Inr recipients \<Rightarrow>
                 if recipients = [] then
                   \<lparr>csv_status = 400, csv_body = Csv_error ''No recipients found in CSV.'' None\<rparr>
                 else
                   (case prep of
                      Inl (err, det) \<Rightarrow> \<lparr>csv_status = 400, csv_body = Csv_error err (Some det)\<rparr>
                    | Inr attachments \<Rightarrow>
                        let b = \<lparr>b_subject = (case req_subject req of Some s \<Rightarrow> s | None \<Rightarrow> []),
                                 b_html = (case req_html req of Some s \<Rightarrow> s | None \<Rightarrow> []),
                                 b_fromName =
                                   (case js_or (req_fromName req) (Some ''Team Intellia'') of
                                      Some s \<Rightarrow> s | None \<Rightarrow> ''Team Intellia''),
                                 b_user = user,
                                 b_inline = attachments,
                                 b_generic = generic\<rparr>;
                            results = fst (send_csv_loop tr b recipients (no_results, t0))
                        in \<lparr>csv_status = 200, csv_body = Csv_summary results\<rparr>)))"

section \<open>Image URL normalisation\<close>

text \<open>
  \<open>normalizeImageUrl\<close> (server.js 902-923; part_000 81-102). \<open>new URL(url)\<close> is the
  platform's parser, a parameter: \<open>None\<close> when it throws, otherwise the host name, the
  path and the query parameters it finds.
\<close>

record parsed_url =
  hostname :: string
  pathname :: string
  searchParams :: "(string \<times> string) list"

text \<open>\<open>String.prototype.includes\<close>.\<close>

fun str_includes :: "string \<Rightarrow> string \<Rightarrow> bool" where
  "str_includes [] needle = (needle = [])"
| "str_includes (c # cs) needle = (prefix needle (c # cs) \<or> str_includes cs needle)"

text \<open>The first capture group of the leftmost match of \<open>/\/d\/([^/]+)/\<close>, if any.\<close>

fun match_d :: "string \<Rightarrow> string option" where
  "match_d [] = None"
| "match_d (c # cs) =
     (if prefix ''/d/'' (c # cs) \<and> takeWhile (\<lambda>x. x \<noteq> CHR ''/'') (drop 2 cs) \<noteq> [] then
        Some (takeWhile (\<lambda>x. x \<noteq> CHR ''/'') (drop 2 cs))
      else match_d cs)"

definition direct_view :: "string \<Rightarrow> string" where
  "direct_view ident = ''https://drive.google.com/uc?export=view&id='' @ ident"

definition normalizeImageUrl :: "(string \<Rightarrow> parsed_url option) \<Rightarrow> string \<Rightarrow> string" where
  "normalizeImageUrl parse url =
     (case parse url of
        None \<Rightarrow> url
      | Some u \<Rightarrow>
          if str_includes (hostname u) ''drive.google.com'' then
            (case js_or (match_d (pathname u)) (map_of (searchParams u) ''id'') of
               None \<Rightarrow> url
             | Some ident \<Rightarrow> if ident \<noteq> [] then direct_view ident else url)
          else url)"

section \<open>Properties of the OTP store\<close>

lemma digits_nonempty: "digits n \<noteq> []"
  by (subst digits.simps) simp

lemma toString_nonempty: "toString n \<noteq> []"
  by (simp add: toString_def digits_nonempty)

lemma set_delete_subset: "set (AList.delete k xs) \<subseteq> set xs"
  by (auto simp: AList.delete_eq)

lemma inherited_own_irrelevant: "inherited (store\<lparr>own := x\<rparr>) k = inherited store k"
  by (simp add: inherited_def)

lemma inherited_not_proto: "inherited store key = Undefined \<Longrightarrow> key \<noteq> ''__proto__''"
  by (auto simp: inherited_def split: option.splits)

lemma store_get_own:
  "map_of (own st) e = Some r \<Longrightarrow> e \<noteq> ''__proto__'' \<Longrightarrow> store_get st e = Record r"
  by (simp add: store_get_def)

lemma store_get_absent:
  "map_of (own st) e = None \<Longrightarrow> store_get st e = inherited st e"
  by (simp add: store_get_def)

lemma store_get_set_same:
  "store_get (store_set store key r) key = Record r"
  by (simp add: store_get_def store_set_def update_conv' inherited_def)

lemma store_get_set_other:
  "key \<noteq> ''__proto__'' \<Longrightarrow> k \<noteq> key \<Longrightarrow>
   store_get (store_set store key r) k = store_get store k"
  by (simp add: store_get_def store_set_def update_conv' inherited_own_irrelevant
      split: option.split)

lemma store_get_delete_same:
  assumes "inherited store key = Undefined"
  shows "store_get (store_delete store key) key = Undefined"
  using assms inherited_not_proto[OF assms]
  by (simp add: store_get_def store_delete_def delete_conv' inherited_own_irrelevant)

lemma sweep_keys_filter:
  "distinct ks \<Longrightarrow> distinct (map fst (own st)) \<Longrightarrow> set ks \<subseteq> fst ` set (own st) \<Longrightarrow>
   ''__proto__'' \<notin> set ks \<Longrightarrow>
   sweep_keys now ks st =
     Some (st\<lparr>own := filter (\<lambda>p. fst p \<notin> set ks \<or> \<not> expiresAt (snd p) \<le> now) (own st)\<rparr>)"
proof (induction ks arbitrary: st)
  case Nil
  then show ?case by simp
next
  case (Cons e es)
  from Cons.prems obtain r where r: "map_of (own st) e = Some r"
    by (metis list.set_intros(1) map_of_eq_None_iff not_Some_eq subsetD)
  from Cons.prems have ne: "e \<noteq> ''__proto__''" by auto
  have g: "store_get st e = Record r" using r ne by (rule store_get_own)
  let ?st' = "if expiresAt r \<le> now then store_delete st e else st"
  have d: "distinct (map fst (own ?st'))"
    using Cons.prems by (simp add: store_delete_def distinct_delete ne)
  have "fst ` set (AList.delete e (own st)) = fst ` set (own st) - {e}"
    by (metis delete_keys set_map set_removeAll)
  then have s: "set es \<subseteq> fst ` set (own ?st')"
    using Cons.prems by (auto simp: store_delete_def ne)
  have p: "''__proto__'' \<notin> set es" using Cons.prems by simp
  have ih: "sweep_keys now es ?st' =
      Some (?st'\<lparr>own := filter (\<lambda>p. fst p \<notin> set es \<or> \<not> expiresAt (snd p) \<le> now) (own ?st')\<rparr>)"
    using Cons.IH[OF _ d s p] Cons.prems by simp
  have f: "filter (\<lambda>p. fst p \<notin> set es \<or> \<not> expiresAt (snd p) \<le> now) (own ?st')
      = filter (\<lambda>p. fst p \<notin> set (e # es) \<or> \<not> expiresAt (snd p) \<le> now) (own st)"
  proof -
    have uniq: "\<And>a b. (a, b) \<in> set (own st) \<Longrightarrow> a = e \<Longrightarrow> b = r"
      using r Cons.prems(2) by (metis map_of_is_SomeI option.inject)
    show ?thesis
    proof (cases "expiresAt r \<le> now")
      case True
      then show ?thesis using uniq
        by (auto simp: store_delete_def ne AList.delete_eq intro!: filter_cong)
    next
      case False
      with uniq show ?thesis by (auto intro!: filter_cong)
    qed
  qed
  have "sweep_keys now (e # es) st = sweep_keys now es ?st'"
    by (simp add: g get_expiresAt_def)
  also have "\<dots> = Some (?st'\<lparr>own := filter (\<lambda>p. fst p \<notin> set (e # es) \<or> \<not> expiresAt (snd p) \<le> now) (own st)\<rparr>)"
    using ih f by simp
  also have "\<dots> = Some (st\<lparr>own := filter (\<lambda>p. fst p \<notin> set (e # es) \<or> \<not> expiresAt (snd p) \<le> now) (own st)\<rparr>)"
    by (simp add: store_delete_def)
  finally show ?case .
qed

lemma sweep_filter:
  assumes "distinct (map fst (own st))" and "''__proto__'' \<notin> fst ` set (own st)"
  shows "sweep now st = Some (st\<lparr>own := filter (\<lambda>p. \<not> expiresAt (snd p) \<le> now) (own st)\<rparr>)"
proof -
  have "filter (\<lambda>p. fst p \<notin> set (map fst (own st)) \<or> \<not> expiresAt (snd p) \<le> now) (own st)
      = filter (\<lambda>p. \<not> expiresAt (snd p) \<le> now) (own st)"
    by (auto intro!: filter_cong)
  then show ?thesis
    unfolding sweep_def using sweep_keys_filter[of "map fst (own st)" st now] assms
    by simp
qed

lemma snd_send_otp:
  "email \<noteq> [] \<Longrightarrow> snd (send_otp store email n now mail db audit)
     = store_set store email \<lparr>otp = toString n, expiresAt = now + 300000\<rparr>"
  by (simp add: send_otp_def Let_def split: send_outcome.split audit_outcome.split)

lemma snd_send_otp_mailjs:
  "email \<noteq> [] \<Longrightarrow> snd (send_otp_mailjs store email n now mail audit)
     = store_set store email \<lparr>otp = toString n, expiresAt = now + 300000\<rparr>"
  by (simp add: send_otp_mailjs_def Let_def split: send_outcome.split audit_outcome.split)

lemma snd_verify_otp_cases:
  "snd (verify_otp store email code now) = store
   \<or> snd (verify_otp store email code now) = store_delete store email"
  by (simp add: verify_otp_def Let_def)

lemma send_otp_unified_ignores_audit:
  "email \<noteq> [] \<Longrightarrow> fst (send_otp store email n now Sent db audit) = reply 200 True ''OTP sent''"
  by (simp add: send_otp_def Let_def split: audit_outcome.split)

lemma store_set_keeps_names:
  assumes "distinct (map fst (own st))" and "''__proto__'' \<notin> fst ` set (own st)"
  shows "distinct (map fst (own (store_set st key r)))
       \<and> ''__proto__'' \<notin> fst ` set (own (store_set st key r))"
  using assms by (auto simp: store_set_def distinct_update dom_update)

lemma store_delete_keeps_names:
  assumes "distinct (map fst (own st))" and "''__proto__'' \<notin> fst ` set (own st)"
  shows "distinct (map fst (own (store_delete st key)))
       \<and> ''__proto__'' \<notin> fst ` set (own (store_delete st key))
       \<and> set (own (store_delete st key)) \<subseteq> set (own st)
       \<and> proto (store_delete st key) = proto st"
  using assms set_delete_subset[of key "own st"]
  by (auto simp: store_delete_def distinct_delete)

lemma store_set_frame:
  "(key \<noteq> ''__proto__'' \<longrightarrow> (\<forall>k. k \<noteq> key \<longrightarrow> store_get (store_set st key r) k = store_get st k))
   \<and> (key = ''__proto__'' \<longrightarrow> own (store_set st key r) = own st)"
  by (simp add: store_get_set_other) (simp add: store_set_def)

lemma store_get_cases:
  "inherited store email = Undefined \<Longrightarrow>
   store_get store email = Undefined \<or> (\<exists>r. store_get store email = Record r)"
  by (cases "map_of (own store) email") (auto simp: store_get_def)

lemma verify_otp_absent:
  "email \<noteq> [] \<Longrightarrow> code \<noteq> [] \<Longrightarrow> store_get store email = Undefined \<Longrightarrow>
   verify_otp store email code now = (reply 200 False ''OTP not found. Request a new code.'', store)"
  by (simp add: verify_otp_def Let_def js_truthy_def)

lemma verify_otp_record:
  assumes "email \<noteq> []" "code \<noteq> []" "store_get store email = Record r"
  shows "verify_otp store email code now =
     (if now > expiresAt r then
        (reply 200 False ''OTP expired. Please request a new one.'', store_delete store email)
      else if otp r \<noteq> code then (reply 200 False ''Invalid OTP. Please try again.'', store)
      else (reply 200 True ''OTP verified'', store_delete store email))"
  using assms by (simp add: verify_otp_def Let_def js_truthy_def get_expiresAt_def get_otp_def)

text \<open>
  C4, as amended. A request whose email or code is empty is answered 400 "Missing email
  or otp" and leaves the store alone. For a non-empty code and a non-empty email under
  which the store object inherits nothing, a read finds either nothing or a stored
  record, and: without a record the answer is "not found"; with a record whose expiry
  lies before the current time the answer is "expired" and the record is deleted; with
  an unexpired record and a different code the answer is "Invalid OTP" and the store is
  unchanged; with an unexpired record and the same code the answer is "OTP verified",
  the record is deleted, and a second verify with the same code, at any time, answers
  "not found".
\<close>

theorem verify_otp_contract:
  "(email = [] \<or> code = [] \<longrightarrow>
      verify_otp store email code now = (reply 400 False ''Missing email or otp'', store))
   \<and> (email \<noteq> [] \<and> code \<noteq> [] \<and> inherited store email = Undefined \<longrightarrow>
      (store_get store email = Undefined \<or> (\<exists>r. store_get store email = Record r))
    \<and> (store_get store email = Undefined \<longrightarrow>
         verify_otp store email code now =
           (reply 200 False ''OTP not found. Request a new code.'', store))
    \<and> (\<forall>r. store_get store email = Record r \<and> now > expiresAt r \<longrightarrow>
         verify_otp store email code now =
           (reply 200 False ''OTP expired. Please request a new one.'', store_delete store email)
         \<and> store_get (snd (verify_otp store email code now)) email = Undefined)
    \<and> (\<forall>r. store_get store email = Record r \<and> \<not> now > expiresAt r \<and> otp r \<noteq> code \<longrightarrow>
         verify_otp store email code now =
           (reply 200 False ''Invalid OTP. Please try again.'', store))
    \<and> (\<forall>r. store_get store email = Record r \<and> \<not> now > expiresAt r \<and> otp r = code \<longrightarrow>
         verify_otp store email code now = (reply 200 True ''OTP verified'', store_delete store email)
         \<and> store_get (snd (verify_otp store email code now)) email = Undefined
         \<and> (\<forall>later. verify_otp (snd (verify_otp store email code now)) email code later =
              (reply 200 False ''OTP not found. Request a new code.'',
               store_delete store email))))"
proof (intro conjI impI allI)
  assume "email = [] \<or> code = []"
  then show "verify_otp store email code now = (reply 400 False ''Missing email or otp'', store)"
    by (auto simp: verify_otp_def)
next
  assume h: "email \<noteq> [] \<and> code \<noteq> [] \<and> inherited store email = Undefined"
  then show "store_get store email = Undefined \<or> (\<exists>r. store_get store email = Record r)"
    using store_get_cases by blast
next
  assume h: "email \<noteq> [] \<and> code \<noteq> [] \<and> inherited store email = Undefined"
    and "store_get store email = Undefined"
  then show "verify_otp store email code now =
           (reply 200 False ''OTP not found. Request a new code.'', store)"
    by (simp add: verify_otp_absent)
next
  fix r
  assume h: "email \<noteq> [] \<and> code \<noteq> [] \<and> inherited store email = Undefined"
    and g: "store_get store email = Record r \<and> now > expiresAt r"
  then show v: "verify_otp store email code now =
           (reply 200 False ''OTP expired. Please request a new one.'', store_delete store email)"
    by (simp add: verify_otp_record)
  from h show "store_get (snd (verify_otp store email code now)) email = Undefined"
    unfolding v by (simp add: store_get_delete_same)
next
  fix r
  assume h: "email \<noteq> [] \<and> code \<noteq> [] \<and> inherited store email = Undefined"
    and g: "store_get store email = Record r \<and> \<not> now > expiresAt r \<and> otp r \<noteq> code"
  then show "verify_otp store email code now =
           (reply 200 False ''Invalid OTP. Please try again.'', store)"
    by (simp add: verify_otp_record)
next
  fix r
  assume h: "email \<noteq> [] \<and> code \<noteq> [] \<and> inherited store email = Undefined"
    and g: "store_get store email = Record r \<and> \<not> now > expiresAt r \<and> otp r = code"
  then show v: "verify_otp store email code now =
      (reply 200 True ''OTP verified'', store_delete store email)"
    by (simp add: verify_otp_record)
  from h show u: "store_get (snd (verify_otp store email code now)) email = Undefined"
    unfolding v by (simp add: store_get_delete_same)
  fix later
  from h u show "verify_otp (snd (verify_otp store email code now)) email code later =
              (reply 200 False ''OTP not found. Request a new code.'',
               store_delete store email)"
    unfolding v by (simp add: verify_otp_absent)
qed

text \<open>
  C4 as stated fails. For an empty code against an expired record the request is
  answered "Missing email or otp", not "expired", and the record stays. For the email
  \<open>constructor\<close> and an empty store the read yields an inherited method, and the answer
  is "Invalid OTP", not "not found". For the email \<open>__proto__\<close> the issued record
  becomes the prototype of the store object, \<open>delete\<close> does not remove it, and a
  successful verify leaves the store as it was, so the same code verifies again.
\<close>

theorem verify_otp_contract_counterexample:
  "verify_otp \<lparr>own = [(''u@x.com'', \<lparr>otp = ''123456'', expiresAt = 1000\<rparr>)], proto = None\<rparr>
      ''u@x.com'' [] 2000
     = (reply 400 False ''Missing email or otp'',
        \<lparr>own = [(''u@x.com'', \<lparr>otp = ''123456'', expiresAt = 1000\<rparr>)], proto = None\<rparr>)
   \<and> own empty_store = [] \<and> proto empty_store = None
   \<and> verify_otp empty_store ''constructor'' ''123456'' 0
     = (reply 200 False ''Invalid OTP. Please try again.'', empty_store)
   \<and> snd (send_otp empty_store ''__proto__'' 123456 0 Sent True Logged)
     = \<lparr>own = [], proto = Some \<lparr>otp = ''123456'', expiresAt = 300000\<rparr>\<rparr>
   \<and> verify_otp \<lparr>own = [], proto = Some \<lparr>otp = ''123456'', expiresAt = 300000\<rparr>\<rparr>
        ''__proto__'' ''123456'' 1
     = (reply 200 True ''OTP verified'',
        \<lparr>own = [], proto = Some \<lparr>otp = ''123456'', expiresAt = 300000\<rparr>\<rparr>)"
proof -
  have t: "toString 123456 = ''123456''"
    by (simp add: toString_def digits.simps digit_char_def)
  have a: "verify_otp \<lparr>own = [(''u@x.com'', \<lparr>otp = ''123456'', expiresAt = 1000\<rparr>)], proto = None\<rparr>
      ''u@x.com'' [] 2000
     = (reply 400 False ''Missing email or otp'',
        \<lparr>own = [(''u@x.com'', \<lparr>otp = ''123456'', expiresAt = 1000\<rparr>)], proto = None\<rparr>)"
    by (simp add: verify_otp_def)
  have b: "verify_otp empty_store ''constructor'' ''123456'' 0
     = (reply 200 False ''Invalid OTP. Please try again.'', empty_store)"
    by (simp add: verify_otp_def Let_def store_get_def inherited_def empty_store_def
        object_prototype_methods_def js_truthy_def get_expiresAt_def get_otp_def)
  have c: "snd (send_otp empty_store ''__proto__'' 123456 0 Sent True Logged)
     = \<lparr>own = [], proto = Some \<lparr>otp = ''123456'', expiresAt = 300000\<rparr>\<rparr>"
    by (simp add: send_otp_def Let_def store_set_def empty_store_def t)
  have d: "verify_otp \<lparr>own = [], proto = Some \<lparr>otp = ''123456'', expiresAt = 300000\<rparr>\<rparr>
        ''__proto__'' ''123456'' 1
     = (reply 200 True ''OTP verified'',
        \<lparr>own = [], proto = Some \<lparr>otp = ''123456'', expiresAt = 300000\<rparr>\<rparr>)"
    by (simp add: verify_otp_def Let_def store_get_def inherited_def store_delete_def
        js_truthy_def get_expiresAt_def get_otp_def)
  show ?thesis using a b c d by (simp add: empty_store_def)
qed

theorem verify_otp_contract_witness:
  "verify_otp empty_store ''u@x.com'' ''123456'' 0 =
      (reply 200 False ''OTP not found. Request a new code.'', empty_store)
   \<and> verify_otp \<lparr>own = [(''u@x.com'', \<lparr>otp = ''123456'', expiresAt = 1000\<rparr>)], proto = None\<rparr>
        ''u@x.com'' ''123456'' 2000
       = (reply 200 False ''OTP expired. Please request a new one.'', empty_store)
   \<and> verify_otp \<lparr>own = [(''u@x.com'', \<lparr>otp = ''123456'', expiresAt = 1000\<rparr>)], proto = None\<rparr>
        ''u@x.com'' ''654321'' 500
       = (reply 200 False ''Invalid OTP. Please try again.'',
          \<lparr>own = [(''u@x.com'', \<lparr>otp = ''123456'', expiresAt = 1000\<rparr>)], proto = None\<rparr>)
   \<and> verify_otp \<lparr>own = [(''u@x.com'', \<lparr>otp = ''123456'', expiresAt = 1000\<rparr>)], proto = None\<rparr>
        ''u@x.com'' ''123456'' 500
       = (reply 200 True ''OTP verified'', empty_store)
   \<and> verify_otp \<lparr>own = [(''u@x.com'', \<lparr>otp = ''123456'', expiresAt = 1000\<rparr>)], proto = None\<rparr>
        ''u@x.com'' [] 500
       = (reply 400 False ''Missing email or otp'',
          \<lparr>own = [(''u@x.com'', \<lparr>otp = ''123456'', expiresAt = 1000\<rparr>)], proto = None\<rparr>)"
proof -
  let ?s = "\<lparr>own = [(''u@x.com'', \<lparr>otp = ''123456'', expiresAt = 1000\<rparr>)], proto = None\<rparr>"
  have i0: "inherited empty_store ''u@x.com'' = Undefined"
    by (simp add: inherited_def empty_store_def object_prototype_methods_def)
  have i1: "inherited ?s ''u@x.com'' = Undefined"
    by (simp add: inherited_def object_prototype_methods_def)
  have g0: "store_get empty_store ''u@x.com'' = Undefined"
    by (simp add: store_get_def inherited_def empty_store_def object_prototype_methods_def)
  have g1: "store_get ?s ''u@x.com'' = Record \<lparr>otp = ''123456'', expiresAt = 1000\<rparr>"
    by (simp add: store_get_def)
  have d: "store_delete ?s ''u@x.com'' = empty_store"
    by (simp add: store_delete_def empty_store_def)
  show ?thesis
    using verify_otp_contract [of "''u@x.com''" "''123456''" empty_store 0]
      verify_otp_contract [of "''u@x.com''" "''123456''" ?s 2000]
      verify_otp_contract [of "''u@x.com''" "''654321''" ?s 500]
      verify_otp_contract [of "''u@x.com''" "''123456''" ?s 500]
      verify_otp_contract [of "''u@x.com''" "[]" ?s 500]
    by (simp add: i0 i1 g0 g1 d)
qed

text \<open>
  C8. The own properties of the store have distinct names, none of them \<open>__proto__\<close>:
  this holds of the empty store and every operation keeps it, so there is at most one
  record for each email. An issuance for a non-empty email, in either sender, makes the
  record read under that email the new one, whatever was there before; under an email
  other than \<open>__proto__\<close> it changes no other read, and under \<open>__proto__\<close> it changes no
  own property. Verification and the sweep return a store whose own properties are own
  properties of the old one and whose prototype is unchanged (they only delete), and
  the sweep never fails.
\<close>

theorem otp_store_one_record_per_email:
  assumes "distinct (map fst (own store))" and "''__proto__'' \<notin> fst ` set (own store)"
  shows "distinct (map fst (own empty_store)) \<and> ''__proto__'' \<notin> fst ` set (own empty_store)
       \<and> (email \<noteq> [] \<longrightarrow>
           (let store' = snd (send_otp store email n now mail db audit) in
              distinct (map fst (own store')) \<and> ''__proto__'' \<notin> fst ` set (own store')
            \<and> store_get store' email = Record \<lparr>otp = toString n, expiresAt = now + 300000\<rparr>
            \<and> (email \<noteq> ''__proto__'' \<longrightarrow>
                 (\<forall>k. k \<noteq> email \<longrightarrow> store_get store' k = store_get store k))
            \<and> (email = ''__proto__'' \<longrightarrow> own store' = own store))
         \<and> (let store' = snd (send_otp_mailjs store email n now mail audit) in
              distinct (map fst (own store')) \<and> ''__proto__'' \<notin> fst ` set (own store')
            \<and> store_get store' email = Record \<lparr>otp = toString n, expiresAt = now + 300000\<rparr>
            \<and> (email \<noteq> ''__proto__'' \<longrightarrow>
                 (\<forall>k. k \<noteq> email \<longrightarrow> store_get store' k = store_get store k))
            \<and> (email = ''__proto__'' \<longrightarrow> own store' = own store)))
       \<and> (let store' = snd (verify_otp store email code now) in
             distinct (map fst (own store')) \<and> ''__proto__'' \<notin> fst ` set (own store')
           \<and> set (own store') \<subseteq> set (own store) \<and> proto store' = proto store)
       \<and> (\<exists>store'. sweep now store = Some store'
           \<and> distinct (map fst (own store')) \<and> ''__proto__'' \<notin> fst ` set (own store')
           \<and> set (own store') \<subseteq> set (own store) \<and> proto store' = proto store)"
proof -
  let ?v = "\<lparr>otp = toString n, expiresAt = now + 300000\<rparr>"
  let ?set = "store_set store email ?v"
  have z: "distinct (map fst (own empty_store)) \<and> ''__proto__'' \<notin> fst ` set (own empty_store)"
    by (simp add: empty_store_def)
  have set_ok: "distinct (map fst (own ?set)) \<and> ''__proto__'' \<notin> fst ` set (own ?set)
            \<and> store_get ?set email = Record ?v
            \<and> (email \<noteq> ''__proto__'' \<longrightarrow>
                 (\<forall>k. k \<noteq> email \<longrightarrow> store_get ?set k = store_get store k))
            \<and> (email = ''__proto__'' \<longrightarrow> own ?set = own store)"
    using store_set_keeps_names[OF assms, of email ?v] store_get_set_same[of store email ?v]
      store_set_frame[of email store ?v]
    by blast
  have a: "email \<noteq> [] \<longrightarrow>
           (let store' = snd (send_otp store email n now mail db audit) in
              distinct (map fst (own store')) \<and> ''__proto__'' \<notin> fst ` set (own store')
            \<and> store_get store' email = Record ?v
            \<and> (email \<noteq> ''__proto__'' \<longrightarrow>
                 (\<forall>k. k \<noteq> email \<longrightarrow> store_get store' k = store_get store k))
            \<and> (email = ''__proto__'' \<longrightarrow> own store' = own store))"
  proof
    assume e: "email \<noteq> []"
    show "let store' = snd (send_otp store email n now mail db audit) in
              distinct (map fst (own store')) \<and> ''__proto__'' \<notin> fst ` set (own store')
            \<and> store_get store' email = Record ?v
            \<and> (email \<noteq> ''__proto__'' \<longrightarrow>
                 (\<forall>k. k \<noteq> email \<longrightarrow> store_get store' k = store_get store k))
            \<and> (email = ''__proto__'' \<longrightarrow> own store' = own store)"
      unfolding Let_def snd_send_otp[OF e] by (rule set_ok)
  qed
  have b: "email \<noteq> [] \<longrightarrow>
           (let store' = snd (send_otp_mailjs store email n now mail audit) in
              distinct (map fst (own store')) \<and> ''__proto__'' \<notin> fst ` set (own store')
            \<and> store_get store' email = Record ?v
            \<and> (email \<noteq> ''__proto__'' \<longrightarrow>
                 (\<forall>k. k \<noteq> email \<longrightarrow> store_get store' k = store_get store k))
            \<and> (email = ''__proto__'' \<longrightarrow> own store' = own store))"
  proof
    assume e: "email \<noteq> []"
    show "let store' = snd (send_otp_mailjs store email n now mail audit) in
              distinct (map fst (own store')) \<and> ''__proto__'' \<notin> fst ` set (own store')
            \<and> store_get store' email = Record ?v
            \<and> (email \<noteq> ''__proto__'' \<longrightarrow>
                 (\<forall>k. k \<noteq> email \<longrightarrow> store_get store' k = store_get store k))
            \<and> (email = ''__proto__'' \<longrightarrow> own store' = own store)"
      unfolding Let_def snd_send_otp_mailjs[OF e] by (rule set_ok)
  qed
  have c: "let store' = snd (verify_otp store email code now) in
             distinct (map fst (own store')) \<and> ''__proto__'' \<notin> fst ` set (own store')
           \<and> set (own store') \<subseteq> set (own store) \<and> proto store' = proto store"
    unfolding Let_def
    using assms store_delete_keeps_names[OF assms, of email]
      snd_verify_otp_cases[of store email code now]
    by auto
  let ?f = "filter (\<lambda>p. \<not> expiresAt (snd p) \<le> now) (own store)"
  have "distinct (map fst ?f)" using assms(1) by (rule distinct_map_filter)
  moreover have "''__proto__'' \<notin> fst ` set ?f" using assms(2) by auto
  ultimately have d: "\<exists>store'. sweep now store = Some store'
           \<and> distinct (map fst (own store')) \<and> ''__proto__'' \<notin> fst ` set (own store')
           \<and> set (own store') \<subseteq> set (own store) \<and> proto store' = proto store"
    using sweep_filter[OF assms, of now] by auto
  from z a b c d show ?thesis by blast
qed

theorem otp_store_one_record_per_email_witness:
  "distinct (map fst (own \<lparr>own = [(''a@x.com'', \<lparr>otp = ''111111'', expiresAt = 1000\<rparr>)], proto = None\<rparr>))
   \<and> ''__proto__'' \<notin> fst ` set (own \<lparr>own = [(''a@x.com'', \<lparr>otp = ''111111'', expiresAt = 1000\<rparr>)], proto = None\<rparr>)
   \<and> store_get (snd (send_otp \<lparr>own = [(''a@x.com'', \<lparr>otp = ''111111'', expiresAt = 1000\<rparr>)], proto = None\<rparr>
            ''a@x.com'' 222222 2000 Sent True Logged)) ''a@x.com''
       = Record \<lparr>otp = toString 222222, expiresAt = 302000\<rparr>
   \<and> store_get (snd (send_otp \<lparr>own = [(''a@x.com'', \<lparr>otp = ''111111'', expiresAt = 1000\<rparr>)], proto = None\<rparr>
            ''__proto__'' 222222 2000 Sent True Logged)) ''__proto__''
       = Record \<lparr>otp = toString 222222, expiresAt = 302000\<rparr>
   \<and> (\<exists>store'. sweep 2000 \<lparr>own = [(''a@x.com'', \<lparr>otp = ''111111'', expiresAt = 1000\<rparr>)], proto = None\<rparr>
          = Some store'
        \<and> set (own store') \<subseteq> {(''a@x.com'', \<lparr>otp = ''111111'', expiresAt = 1000\<rparr>)})"
proof -
  let ?s = "\<lparr>own = [(''a@x.com'', \<lparr>otp = ''111111'', expiresAt = 1000\<rparr>)], proto = None\<rparr>"
  have h1: "distinct (map fst (own ?s))" by simp
  have h2: "''__proto__'' \<notin> fst ` set (own ?s)" by simp
  show ?thesis
    using h1 h2
      otp_store_one_record_per_email [OF h1 h2,
        where email = "''a@x.com''" and n = 222222 and now = 2000 and mail = Sent
          and db = True and audit = Logged and code = "''x''"]
      otp_store_one_record_per_email [OF h1 h2,
        where email = "''__proto__''" and n = 222222 and now = 2000 and mail = Sent
          and db = True and audit = Logged and code = "''x''"]
    unfolding Let_def by auto
qed

text \<open>
  C10. When the mail transport fails, \<open>POST /send-otp\<close> answers 500 "Failed to send OTP",
  the freshly written record is in the store, and a verify with the generated code at any
  time up to the expiry succeeds.
\<close>

theorem send_otp_record_survives_mail_failure:
  assumes "email \<noteq> []" and "later \<le> now + 5 * 60 * 1000"
  shows "fst (send_otp store email n now (Send_failed err) db audit)
           = reply 500 False ''Failed to send OTP''
       \<and> store_get (snd (send_otp store email n now (Send_failed err) db audit)) email
           = Record \<lparr>otp = toString n, expiresAt = now + 5 * 60 * 1000\<rparr>
       \<and> fst (verify_otp (snd (send_otp store email n now (Send_failed err) db audit))
                email (toString n) later)
           = reply 200 True ''OTP verified''"
proof -
  let ?v = "\<lparr>otp = toString n, expiresAt = now + 300000\<rparr>"
  let ?s = "store_set store email ?v"
  have s: "snd (send_otp store email n now (Send_failed err) db audit) = ?s"
    using assms(1) by (rule snd_send_otp)
  have g: "store_get ?s email = Record ?v" by (rule store_get_set_same)
  have "verify_otp ?s email (toString n) later = (reply 200 True ''OTP verified'', store_delete ?s email)"
    using assms toString_nonempty[of n] g
    by (simp add: verify_otp_record)
  then show ?thesis using assms(1) g unfolding s
    by (simp add: send_otp_def Let_def)
qed

theorem send_otp_record_survives_mail_failure_witness:
  "fst (send_otp empty_store ''u@x.com'' 123456 0 (Send_failed ''smtp down'') True Logged)
     = reply 500 False ''Failed to send OTP''
   \<and> fst (verify_otp (snd (send_otp empty_store ''u@x.com'' 123456 0 (Send_failed ''smtp down'') True Logged))
           ''u@x.com'' (toString 123456) 299999)
     = reply 200 True ''OTP verified''"
  using send_otp_record_survives_mail_failure
          [where email = "''u@x.com''" and later = 299999 and now = 0 and store = empty_store
             and n = 123456 and err = "''smtp down''" and db = True and audit = Logged]
  by simp

text \<open>
  C6, at the failing input. In the mail.js sender a mail that was sent followed by a
  failed audit write is answered 500 "Failed to send OTP"; the unified sender answers
  200 "OTP sent" on the same outcomes.
\<close>

theorem send_otp_mailjs_audit_failure:
  "fst (send_otp_mailjs empty_store ''u@x.com'' 123456 0 Sent (Log_failed ''unavailable''))
     = reply 500 False ''Failed to send OTP''
   \<and> fst (send_otp empty_store ''u@x.com'' 123456 0 Sent True (Log_failed ''unavailable''))
     = reply 200 True ''OTP sent''"
  by (simp add: send_otp_mailjs_def send_otp_def Let_def)

section \<open>Properties of the retrying fetch\<close>

lemma other_status_retried_unless_last:
  assumes "st < 200 \<or> 299 < st" and "st \<noteq> 429" and "st < 500 \<or> 600 \<le> st"
    and "attempt < maxRetries - 1"
  shows "try_block maxRetries attempt (Http_response st body) = Retry"
  using assms by (auto simp: try_block_def catch_block_def)

text \<open>
  C1, at the failing input. A response with status 400 on the first of five attempts
  makes the loop go round again, and a remote end that always answers 400 is called
  five times, with waits of 1000, 2000, 4000 and 8000 ms, before the error is thrown.
\<close>

theorem fetch_400_is_retried:
  "try_block 5 0 (Http_response 400 (Inr ''bad request'')) = Retry
   \<and> fetchWithBackoff (\<lambda>k. Http_response 400 (Inr ''bad request'')) 5
       = (Thrown (Status_error (Parsed ''bad request'')), [1000, 2000, 4000, 8000])"
  by (simp add: fetchWithBackoff_def fetch_loop.simps try_block_def catch_block_def)

section \<open>Properties of the bulk send loops\<close>

lemma truthy_email_iff:
  "truthy (recipient_email r) \<longleftrightarrow>
     (\<exists>e. r ''email'' = Some e \<and> e \<noteq> []) \<or> (\<exists>e. r ''Email'' = Some e \<and> e \<noteq> [])"
  by (auto simp: recipient_email_def js_or_def truthy_def split: option.splits)

lemma send_csv_step_skip:
  "\<not> truthy (recipient_email r) \<Longrightarrow> send_csv_step tr b r st = st"
  by (auto simp: send_csv_step_def truthy_def split: option.splits)

lemma send_csv_step_standalone_skip:
  "\<not> truthy (recipient_email r) \<Longrightarrow> send_csv_step_standalone tr f r st = st"
  by (auto simp: send_csv_step_standalone_def truthy_def split: option.splits)

lemma send_csv_step_valid:
  assumes "recipient_email r = Some e" "e \<noteq> []"
  shows "\<exists>t'. send_csv_step tr b r (res, t) =
           (res\<lparr>sent := sent res + 1, details := details res @ [Detail_sent e]\<rparr>, t')
         \<or> (\<exists>msg. send_csv_step tr b r (res, t) =
           (res\<lparr>failed := failed res + 1, failures := failures res @ [(e, msg)],
                 details := details res @ [Detail_failed e msg]\<rparr>, t'))"
proof (cases "tr (csv_mail b r e) t")
  case (Pair out t')
  then show ?thesis using assms
    by (cases out) (auto simp: send_csv_step_def)
qed

lemma send_csv_step_valid_fail:
  assumes "recipient_email r = Some e" "e \<noteq> []" "\<forall>m t. fst (tr m t) \<noteq> Sent"
  shows "\<exists>t' msg. send_csv_step tr b r (res, t) =
           (res\<lparr>failed := failed res + 1, failures := failures res @ [(e, msg)],
                 details := details res @ [Detail_failed e msg]\<rparr>, t')"
proof (cases "tr (csv_mail b r e) t")
  case (Pair out t')
  with assms(3) have "out \<noteq> Sent" by (metis fst_conv)
  with Pair show ?thesis using assms(1,2)
    by (cases out) (auto simp: send_csv_step_def)
qed

lemma send_csv_step_standalone_valid:
  assumes "recipient_email r = Some e" "e \<noteq> []"
  shows "\<exists>t'. send_csv_step_standalone tr f r (res, t) = (res\<lparr>sent := sent res + 1\<rparr>, t')
         \<or> (\<exists>msg. send_csv_step_standalone tr f r (res, t) =
           (res\<lparr>failed := failed res + 1, failures := failures res @ [(e, msg)]\<rparr>, t'))"
proof (cases "tr (standalone_mail f r e) t")
  case (Pair out t')
  then show ?thesis using assms
    by (cases out) (auto simp: send_csv_step_standalone_def)
qed

lemma send_csv_step_standalone_valid_fail:
  assumes "recipient_email r = Some e" "e \<noteq> []" "\<forall>m t. fst (tr m t) \<noteq> Sent"
  shows "\<exists>t' msg. send_csv_step_standalone tr f r (res, t) =
           (res\<lparr>failed := failed res + 1, failures := failures res @ [(e, msg)]\<rparr>, t')"
proof (cases "tr (standalone_mail f r e) t")
  case (Pair out t')
  with assms(3) have "out \<noteq> Sent" by (metis fst_conv)
  with Pair show ?thesis using assms(1,2)
    by (cases out) (auto simp: send_csv_step_standalone_def)
qed

lemma row_cases:
  obtains (skip) "\<not> truthy (recipient_email r)"
  | (valid) e where "recipient_email r = Some e" "e \<noteq> []"
  by (cases "recipient_email r") (auto simp: truthy_def)

lemma send_csv_loop_counts:
  "sent (fst (send_csv_loop tr b rows (res, t))) + failed (fst (send_csv_loop tr b rows (res, t)))
     = sent res + failed res + length (filter (\<lambda>r. truthy (recipient_email r)) rows)"
proof (induction rows arbitrary: res t)
  case Nil
  then show ?case by simp
next
  case (Cons r rows)
  show ?case
  proof (cases r rule: row_cases)
    case skip
    then show ?thesis using Cons.IH[of res t] by (simp add: send_csv_step_skip)
  next
    case (valid e)
    then have tr: "truthy (recipient_email r)" by (simp add: truthy_def)
    from send_csv_step_valid[OF valid, of tr b res t]
    obtain res' t' where st: "send_csv_step tr b r (res, t) = (res', t')"
      and cnt: "sent res' + failed res' = sent res + failed res + 1"
      by auto
    show ?thesis using Cons.IH[of res' t'] st cnt tr by simp
  qed
qed

lemma send_csv_loop_standalone_counts:
  "sent (fst (send_csv_loop_standalone tr f rows (res, t)))
     + failed (fst (send_csv_loop_standalone tr f rows (res, t)))
     = sent res + failed res + length (filter (\<lambda>r. truthy (recipient_email r)) rows)"
proof (induction rows arbitrary: res t)
  case Nil
  then show ?case by simp
next
  case (Cons r rows)
  show ?case
  proof (cases r rule: row_cases)
    case skip
    then show ?thesis using Cons.IH[of res t] by (simp add: send_csv_step_standalone_skip)
  next
    case (valid e)
    then have tr: "truthy (recipient_email r)" by (simp add: truthy_def)
    from send_csv_step_standalone_valid[OF valid, of tr f res t]
    obtain res' t' where st: "send_csv_step_standalone tr f r (res, t) = (res', t')"
      and cnt: "sent res' + failed res' = sent res + failed res + 1"
      by auto
    show ?thesis using Cons.IH[of res' t'] st cnt tr by simp
  qed
qed

lemma valid_emails_skip:
  "\<not> truthy (recipient_email r) \<Longrightarrow>
   filter (\<lambda>e. e \<noteq> []) (List.map_filter recipient_email (r # rows))
     = filter (\<lambda>e. e \<noteq> []) (List.map_filter recipient_email rows)"
  by (cases "recipient_email r") (simp_all add: truthy_def)

lemma valid_emails_valid:
  "recipient_email r = Some e \<Longrightarrow> e \<noteq> [] \<Longrightarrow>
   filter (\<lambda>e. e \<noteq> []) (List.map_filter recipient_email (r # rows))
     = e # filter (\<lambda>e. e \<noteq> []) (List.map_filter recipient_email rows)"
  by simp

lemma send_csv_loop_all_fail:
  assumes "\<forall>m t. fst (tr m t) \<noteq> Sent"
  shows "sent (fst (send_csv_loop tr b rows (res, t))) = sent res
       \<and> failed (fst (send_csv_loop tr b rows (res, t)))
           = failed res + length (filter (\<lambda>e. e \<noteq> []) (List.map_filter recipient_email rows))
       \<and> map fst (failures (fst (send_csv_loop tr b rows (res, t))))
           = map fst (failures res) @ filter (\<lambda>e. e \<noteq> []) (List.map_filter recipient_email rows)"
proof (induction rows arbitrary: res t)
  case Nil
  then show ?case by simp
next
  case (Cons r rows)
  show ?case
  proof (cases r rule: row_cases)
    case skip
    then show ?thesis using Cons.IH[of res t] valid_emails_skip[OF skip, of rows]
      by (simp add: send_csv_step_skip del: map_filter_simps)
  next
    case (valid e)
    from send_csv_step_valid_fail[OF valid assms, of b res t]
    obtain t' msg where st: "send_csv_step tr b r (res, t) =
           (res\<lparr>failed := failed res + 1, failures := failures res @ [(e, msg)],
                 details := details res @ [Detail_failed e msg]\<rparr>, t')"
      by blast
    show ?thesis using Cons.IH[of "res\<lparr>failed := failed res + 1, failures := failures res @ [(e, msg)],
                 details := details res @ [Detail_failed e msg]\<rparr>" t']
      by (simp add: st valid_emails_valid[OF valid] del: map_filter_simps)
  qed
qed

lemma send_csv_loop_standalone_all_fail:
  assumes "\<forall>m t. fst (tr m t) \<noteq> Sent"
  shows "sent (fst (send_csv_loop_standalone tr f rows (res, t))) = sent res
       \<and> failed (fst (send_csv_loop_standalone tr f rows (res, t)))
           = failed res + length (filter (\<lambda>e. e \<noteq> []) (List.map_filter recipient_email rows))
       \<and> map fst (failures (fst (send_csv_loop_standalone tr f rows (res, t))))
           = map fst (failures res) @ filter (\<lambda>e. e \<noteq> []) (List.map_filter recipient_email rows)"
proof (induction rows arbitrary: res t)
  case Nil
  then show ?case by simp
next
  case (Cons r rows)
  show ?case
  proof (cases r rule: row_cases)
    case skip
    then show ?thesis using Cons.IH[of res t] valid_emails_skip[OF skip, of rows]
      by (simp add: send_csv_step_standalone_skip del: map_filter_simps)
  next
    case (valid e)
    from send_csv_step_standalone_valid_fail[OF valid assms, of f res t]
    obtain t' msg where st: "send_csv_step_standalone tr f r (res, t) =
           (res\<lparr>failed := failed res + 1, failures := failures res @ [(e, msg)]\<rparr>, t')"
      by blast
    show ?thesis using Cons.IH[of "res\<lparr>failed := failed res + 1, failures := failures res @ [(e, msg)]\<rparr>" t']
      by (simp add: st valid_emails_valid[OF valid] del: map_filter_simps)
  qed
qed

lemma send_csv_reaches_loop:
  assumes "req_csvFile req = Some (Inr rows)" "rows \<noteq> []"
    "truthy (req_subject req)" "truthy (req_html req)" "prep = Inr atts"
  shows "\<exists>b. send_csv tr user req prep generic t0 =
           \<lparr>csv_status = 200,
            csv_body = Csv_summary (fst (send_csv_loop tr b rows (no_results, t0)))\<rparr>"
  using assms by (simp add: send_csv_def Let_def) blast

text \<open>
  C3. For every list of rows and every transport, in both versions of the loop, the
  final counters satisfy \<open>sent + failed =\<close> the number of rows with a non-empty value
  under \<open>email\<close> or under \<open>Email\<close>; a row without one leaves the counters, the lists
  and the transport as they were.
\<close>

theorem send_csv_sent_plus_failed:
  "sent (fst (send_csv_loop tr b rows (no_results, t0)))
     + failed (fst (send_csv_loop tr b rows (no_results, t0)))
     = length (filter (\<lambda>r. (\<exists>e. r ''email'' = Some e \<and> e \<noteq> [])
                          \<or> (\<exists>e. r ''Email'' = Some e \<and> e \<noteq> [])) rows)
   \<and> sent (fst (send_csv_loop_standalone tr f rows (no_results, t0)))
     + failed (fst (send_csv_loop_standalone tr f rows (no_results, t0)))
     = length (filter (\<lambda>r. (\<exists>e. r ''email'' = Some e \<and> e \<noteq> [])
                          \<or> (\<exists>e. r ''Email'' = Some e \<and> e \<noteq> [])) rows)
   \<and> (\<forall>r st. \<not> ((\<exists>e. r ''email'' = Some e \<and> e \<noteq> []) \<or> (\<exists>e. r ''Email'' = Some e \<and> e \<noteq> []))
        \<longrightarrow> send_csv_step tr b r st = st \<and> send_csv_step_standalone tr f r st = st)"
  using send_csv_loop_counts[of tr b rows no_results t0]
    send_csv_loop_standalone_counts[of tr f rows no_results t0]
  by (simp add: truthy_email_iff[symmetric] no_results_def send_csv_step_skip
      send_csv_step_standalone_skip)


theorem send_csv_sent_plus_failed_witness:
  "sent (fst (send_csv_loop (\<lambda>m t. (Sent, t))
            \<lparr>b_subject = ''Hi'', b_html = ''Hello [Name]'', b_fromName = ''Team'',
             b_user = ''me@x.com'', b_inline = [], b_generic = []\<rparr>
            [[''email'' \<mapsto> ''a@x.com'', ''name'' \<mapsto> ''A''], [''name'' \<mapsto> ''B'']]
            (no_results, ())))
   + failed (fst (send_csv_loop (\<lambda>m t. (Sent, t))
            \<lparr>b_subject = ''Hi'', b_html = ''Hello [Name]'', b_fromName = ''Team'',
             b_user = ''me@x.com'', b_inline = [], b_generic = []\<rparr>
            [[''email'' \<mapsto> ''a@x.com'', ''name'' \<mapsto> ''A''], [''name'' \<mapsto> ''B'']]
            (no_results, ()))) = 1
   \<and> send_csv_step (\<lambda>m t. (Sent, t))
        \<lparr>b_subject = ''Hi'', b_html = ''Hello [Name]'', b_fromName = ''Team'',
         b_user = ''me@x.com'', b_inline = [], b_generic = []\<rparr>
        [''name'' \<mapsto> ''B''] (no_results, ()) = (no_results, ())"
  using send_csv_sent_plus_failed
    [of "\<lambda>m t. (Sent, t)"
        "\<lparr>b_subject = ''Hi'', b_html = ''Hello [Name]'', b_fromName = ''Team'',
          b_user = ''me@x.com'', b_inline = [], b_generic = []\<rparr>"
        "[[''email'' \<mapsto> ''a@x.com'', ''name'' \<mapsto> ''A''], [''name'' \<mapsto> ''B'']]"
        "()"
        "\<lparr>f_subject = ''Hi'', f_html = ''Hello [Name]'', f_fromName = ''Team'',
          f_user = ''me@x.com'', f_inline = [], f_before = ''<div>'', f_after = ''</div>''\<rparr>"]
  by simp

text \<open>
  C2. In both versions of the loop, when the transport rejects the message of a row
  with an email, the failure is appended as the pair of the email and the error message,
  the failure counter goes up by one and the loop goes on with the remaining rows. When
  every send fails, \<open>sent\<close> is 0, \<open>failed\<close> is the number of rows with an email and the
  failure list names those emails in order; the handler of the unified server, once past
  its validation, then answers 200 with that summary.
\<close>

theorem send_csv_failure_never_aborts:
  "(recipient_email r = Some e \<and> e \<noteq> [] \<and> tr (csv_mail b r e) t = (Send_failed msg, t') \<longrightarrow>
      send_csv_loop tr b (r # rs) (res, t) =
        send_csv_loop tr b rs
          (res\<lparr>failed := failed res + 1, failures := failures res @ [(e, msg)],
                details := details res @ [Detail_failed e msg]\<rparr>, t'))
   \<and> (recipient_email r = Some e \<and> e \<noteq> [] \<and> tr (standalone_mail f r e) t = (Send_failed msg, t') \<longrightarrow>
      send_csv_loop_standalone tr f (r # rs) (res, t) =
        send_csv_loop_standalone tr f rs
          (res\<lparr>failed := failed res + 1, failures := failures res @ [(e, msg)]\<rparr>, t'))
   \<and> ((\<forall>m t. fst (tr m t) \<noteq> Sent) \<longrightarrow>
        sent (fst (send_csv_loop_standalone tr f rows (no_results, t0))) = 0
      \<and> failed (fst (send_csv_loop_standalone tr f rows (no_results, t0)))
          = length (filter (\<lambda>e. e \<noteq> []) (List.map_filter recipient_email rows))
      \<and> map fst (failures (fst (send_csv_loop_standalone tr f rows (no_results, t0))))
          = filter (\<lambda>e. e \<noteq> []) (List.map_filter recipient_email rows))
   \<and> ((\<forall>m t. fst (tr m t) \<noteq> Sent) \<and> req_csvFile req = Some (Inr rows) \<and> rows \<noteq> []
        \<and> truthy (req_subject req) \<and> truthy (req_html req) \<and> prep = Inr atts \<longrightarrow>
        (\<exists>summary. send_csv tr user req prep generic t0
                      = \<lparr>csv_status = 200, csv_body = Csv_summary summary\<rparr>
          \<and> sent summary = 0
          \<and> failed summary = length (filter (\<lambda>e. e \<noteq> []) (List.map_filter recipient_email rows))
          \<and> map fst (failures summary)
              = filter (\<lambda>e. e \<noteq> []) (List.map_filter recipient_email rows)))"
proof (intro conjI impI)
  assume "recipient_email r = Some e \<and> e \<noteq> [] \<and> tr (csv_mail b r e) t = (Send_failed msg, t')"
  then show "send_csv_loop tr b (r # rs) (res, t) =
        send_csv_loop tr b rs
          (res\<lparr>failed := failed res + 1, failures := failures res @ [(e, msg)],
                details := details res @ [Detail_failed e msg]\<rparr>, t')"
    by (simp add: send_csv_step_def)
next
  assume "recipient_email r = Some e \<and> e \<noteq> [] \<and> tr (standalone_mail f r e) t = (Send_failed msg, t')"
  then show "send_csv_loop_standalone tr f (r # rs) (res, t) =
        send_csv_loop_standalone tr f rs
          (res\<lparr>failed := failed res + 1, failures := failures res @ [(e, msg)]\<rparr>, t')"
    by (simp add: send_csv_step_standalone_def)
next
  assume a: "\<forall>m t. fst (tr m t) \<noteq> Sent"
  show "sent (fst (send_csv_loop_standalone tr f rows (no_results, t0))) = 0"
    using send_csv_loop_standalone_all_fail[OF a, of f rows no_results t0]
    by (simp add: no_results_def)
  show "failed (fst (send_csv_loop_standalone tr f rows (no_results, t0)))
          = length (filter (\<lambda>e. e \<noteq> []) (List.map_filter recipient_email rows))"
    using send_csv_loop_standalone_all_fail[OF a, of f rows no_results t0]
    by (simp add: no_results_def)
  show "map fst (failures (fst (send_csv_loop_standalone tr f rows (no_results, t0))))
          = filter (\<lambda>e. e \<noteq> []) (List.map_filter recipient_email rows)"
    using send_csv_loop_standalone_all_fail[OF a, of f rows no_results t0]
    by (simp add: no_results_def)
next
  assume h: "(\<forall>m t. fst (tr m t) \<noteq> Sent) \<and> req_csvFile req = Some (Inr rows) \<and> rows \<noteq> []
        \<and> truthy (req_subject req) \<and> truthy (req_html req) \<and> prep = Inr atts"
  then obtain b where b: "send_csv tr user req prep generic t0 =
           \<lparr>csv_status = 200,
            csv_body = Csv_summary (fst (send_csv_loop tr b rows (no_results, t0)))\<rparr>"
    using send_csv_reaches_loop[of req rows prep atts tr user generic t0] by blast
  from h have a: "\<forall>m t. fst (tr m t) \<noteq> Sent" by blast
  show "\<exists>summary. send_csv tr user req prep generic t0
                      = \<lparr>csv_status = 200, csv_body = Csv_summary summary\<rparr>
          \<and> sent summary = 0
          \<and> failed summary = length (filter (\<lambda>e. e \<noteq> []) (List.map_filter recipient_email rows))
          \<and> map fst (failures summary)
              = filter (\<lambda>e. e \<noteq> []) (List.map_filter recipient_email rows)"
    using b send_csv_loop_all_fail[OF a, of b rows no_results t0]
    by (simp add: no_results_def)
qed

theorem send_csv_failure_never_aborts_witness:
  "(\<exists>summary.
      send_csv (\<lambda>m t. (Send_failed ''boom'', t)) ''me@x.com''
        \<lparr>req_csvFile = Some (Inr [[''email'' \<mapsto> ''a@x.com''], [''name'' \<mapsto> ''B''],
                                    [''Email'' \<mapsto> ''c@x.com'']]),
         req_subject = Some ''Hi'', req_html = Some ''Hello [Name]'', req_fromName = None\<rparr>
        (Inr []) [] ()
        = \<lparr>csv_status = 200, csv_body = Csv_summary summary\<rparr>
      \<and> sent summary = 0 \<and> failed summary = 2
      \<and> map fst (failures summary) = [''a@x.com'', ''c@x.com''])
   \<and> send_csv_loop (\<lambda>m t. (Send_failed ''boom'', t))
        \<lparr>b_subject = ''Hi'', b_html = ''Hello [Name]'', b_fromName = ''Team'',
         b_user = ''me@x.com'', b_inline = [], b_generic = []\<rparr>
        [[''email'' \<mapsto> ''a@x.com''], [''Email'' \<mapsto> ''c@x.com'']] (no_results, ())
       = send_csv_loop (\<lambda>m t. (Send_failed ''boom'', t))
        \<lparr>b_subject = ''Hi'', b_html = ''Hello [Name]'', b_fromName = ''Team'',
         b_user = ''me@x.com'', b_inline = [], b_generic = []\<rparr>
        [[''Email'' \<mapsto> ''c@x.com'']]
        (no_results\<lparr>failed := failed no_results + 1,
                     failures := failures no_results @ [(''a@x.com'', ''boom'')],
                     details := details no_results @ [Detail_failed ''a@x.com'' ''boom'']\<rparr>, ())"
proof -
  note inst = send_csv_failure_never_aborts
    [where tr = "\<lambda>m t. (Send_failed ''boom'', t)" and user = "''me@x.com''"
       and req = "\<lparr>req_csvFile = Some (Inr [[''email'' \<mapsto> ''a@x.com''], [''name'' \<mapsto> ''B''],
                                    [''Email'' \<mapsto> ''c@x.com'']]),
         req_subject = Some ''Hi'', req_html = Some ''Hello [Name]'', req_fromName = None\<rparr>"
       and rows = "[[''email'' \<mapsto> ''a@x.com''], [''name'' \<mapsto> ''B''],
                                    [''Email'' \<mapsto> ''c@x.com'']]"
       and prep = "Inr []" and atts = "[]" and generic = "[]" and ?t0.0 = "()"
       and r = "[''email'' \<mapsto> ''a@x.com'']" and e = "''a@x.com''" and msg = "''boom''"
       and t = "()" and t' = "()" and rs = "[[''Email'' \<mapsto> ''c@x.com'']]"
       and res = no_results
       and b = "\<lparr>b_subject = ''Hi'', b_html = ''Hello [Name]'', b_fromName = ''Team'',
         b_user = ''me@x.com'', b_inline = [], b_generic = []\<rparr>"
       and f = "\<lparr>f_subject = ''Hi'', f_html = ''Hello [Name]'', f_fromName = ''Team'',
          f_user = ''me@x.com'', f_inline = [], f_before = ''<div>'', f_after = ''</div>''\<rparr>"]
  have first: "send_csv_loop (\<lambda>m t. (Send_failed ''boom'', t))
        \<lparr>b_subject = ''Hi'', b_html = ''Hello [Name]'', b_fromName = ''Team'',
         b_user = ''me@x.com'', b_inline = [], b_generic = []\<rparr>
        [[''email'' \<mapsto> ''a@x.com''], [''Email'' \<mapsto> ''c@x.com'']] (no_results, ())
       = send_csv_loop (\<lambda>m t. (Send_failed ''boom'', t))
        \<lparr>b_subject = ''Hi'', b_html = ''Hello [Name]'', b_fromName = ''Team'',
         b_user = ''me@x.com'', b_inline = [], b_generic = []\<rparr>
        [[''Email'' \<mapsto> ''c@x.com'']]
        (no_results\<lparr>failed := failed no_results + 1,
                     failures := failures no_results @ [(''a@x.com'', ''boom'')],
                     details := details no_results @ [Detail_failed ''a@x.com'' ''boom'']\<rparr>, ())"
    using inst [THEN conjunct1]
    by (simp add: truthy_def recipient_email_def js_or_def)
  have last: "\<exists>summary.
      send_csv (\<lambda>m t. (Send_failed ''boom'', t)) ''me@x.com''
        \<lparr>req_csvFile = Some (Inr [[''email'' \<mapsto> ''a@x.com''], [''name'' \<mapsto> ''B''],
                                    [''Email'' \<mapsto> ''c@x.com'']]),
         req_subject = Some ''Hi'', req_html = Some ''Hello [Name]'', req_fromName = None\<rparr>
        (Inr []) [] ()
        = \<lparr>csv_status = 200, csv_body = Csv_summary summary\<rparr>
      \<and> sent summary = 0 \<and> failed summary = 2
      \<and> map fst (failures summary) = [''a@x.com'', ''c@x.com'']"
    using inst [THEN conjunct2, THEN conjunct2, THEN conjunct2]
    by (simp add: truthy_def recipient_email_def js_or_def numeral_2_eq_2)
  from first last show ?thesis by blast
qed

section \<open>Properties of the name substitution\<close>

lemma get_substitution_plain:
  "CHR 0x24 \<notin> set rep \<Longrightarrow> get_substitution m pre post rep = rep"
  by (induction m pre post rep rule: get_substitution.induct) auto

lemma replace_from_no_token:
  "\<not> str_includes s name_token \<Longrightarrow> replace_from pre s rep = s"
  by (induction s arbitrary: pre) auto

lemma prefix_token_short:
  assumes "prefix name_token (x @ y)" "length name_token \<le> length x"
  shows "prefix name_token x"
  using assms by (metis prefix_length_prefix prefixI prefix_order.order_refl append_prefixD)

lemma replace_from_first:
  assumes "CHR 0x24 \<notin> set rep" "\<not> str_includes (a @ ''[Name'') name_token"
  shows "replace_from pre (a @ name_token @ rest) rep
           = a @ rep @ replace_from (pre @ a @ name_token) rest rep"
  using assms(2)
proof (induction a arbitrary: pre)
  case Nil
  then show ?case using assms(1)
    by (simp add: name_token_def get_substitution_plain)
next
  case (Cons c a)
  from Cons.prems have np: "\<not> prefix name_token ((c # a) @ ''[Name'')"
    and ni: "\<not> str_includes (a @ ''[Name'') name_token"
    by auto
  have "\<not> prefix name_token (((c # a) @ ''[Name'') @ '']'' @ rest)"
    using np prefix_token_short[of "(c # a) @ ''[Name''" "'']'' @ rest"]
    by (auto simp: name_token_def)
  then have "\<not> prefix name_token (c # a @ name_token @ rest)"
    by (simp add: name_token_def)
  then show ?case using Cons.IH[OF ni, of "pre @ [c]"] by simp
qed

lemma replace_from_pre_irrelevant:
  assumes "CHR 0x24 \<notin> set rep"
  shows "replace_from pre s rep = replace_from [] s rep"
proof (induction s arbitrary: pre rule: length_induct)
  case (1 s)
  show ?case
  proof (cases s)
    case Nil
    then show ?thesis by simp
  next
    case (Cons c cs)
    have ih1: "replace_from p cs rep = replace_from [] cs rep" for p
      by (rule "1.IH"[rule_format]) (simp add: Cons)
    have ih2: "replace_from p (drop 5 cs) rep = replace_from [] (drop 5 cs) rep" for p
      by (rule "1.IH"[rule_format]) (simp add: Cons)
    show ?thesis
    proof (cases "prefix name_token (c # cs)")
      case True
      then show ?thesis unfolding Cons
        using ih2[of "pre @ name_token"] ih2[of "[] @ name_token"]
        by (simp add: get_substitution_plain[OF assms])
    next
      case False
      then show ?thesis unfolding Cons
        using ih1[of "pre @ [c]"] ih1[of "[] @ [c]"] by simp
    qed
  qed
qed

lemma replace_name_no_token:
  "\<not> str_includes html name_token \<Longrightarrow> replace_name html name = html"
  by (simp add: replace_name_def replace_from_no_token)

lemma replace_name_first:
  assumes "CHR 0x24 \<notin> set name" "\<not> str_includes (a @ ''[Name'') name_token"
  shows "replace_name (a @ ''[Name]'' @ rest) name = a @ name @ replace_name rest name"
  using replace_from_first[OF assms, of "[]" rest]
    replace_from_pre_irrelevant[OF assms(1), of "[] @ a @ name_token" rest]
  by (simp add: replace_name_def name_token_def)

lemma recipient_name_cases:
  "recipient_name r dflt =
     (if truthy (r ''name'') then the (r ''name'')
      else if truthy (r ''Name'') then the (r ''Name'') else dflt)"
  by (auto simp: recipient_name_def js_or_def truthy_def split: option.splits)

text \<open>
  C5, as amended. A body without the token is returned as it is. For a resolved name
  without a dollar sign, a body whose first token starts after the text \<open>a\<close> becomes
  \<open>a\<close>, the name, and the substituted remainder: each token, from left to right, is
  replaced by the name and nothing else changes. The name is the row's \<open>name\<close>, else its
  \<open>Name\<close>, else the empty string in /send-csv and "User" in /send-mails. Substituting
  again changes nothing when the first result contains no token.
\<close>

theorem name_substitution:
  "(\<not> str_includes html ''[Name]'' \<longrightarrow>
      personalize_csv html r = html \<and> personalize_mails html r = html)
   \<and> (CHR 0x24 \<notin> set (recipient_name r []) \<and> \<not> str_includes (a @ ''[Name'') ''[Name]'' \<longrightarrow>
        personalize_csv (a @ ''[Name]'' @ rest) r
          = a @ recipient_name r [] @ personalize_csv rest r)
   \<and> (CHR 0x24 \<notin> set (recipient_name r ''User'') \<and> \<not> str_includes (a @ ''[Name'') ''[Name]'' \<longrightarrow>
        personalize_mails (a @ ''[Name]'' @ rest) r
          = a @ recipient_name r ''User'' @ personalize_mails rest r)
   \<and> (\<not> truthy (r ''name'') \<and> \<not> truthy (r ''Name'') \<longrightarrow>
        recipient_name r [] = [] \<and> recipient_name r ''User'' = ''User'')
   \<and> (\<not> str_includes (personalize_csv html r) ''[Name]'' \<longrightarrow>
        personalize_csv (personalize_csv html r) r = personalize_csv html r)
   \<and> (\<not> str_includes (personalize_mails html r) ''[Name]'' \<longrightarrow>
        personalize_mails (personalize_mails html r) r = personalize_mails html r)"
  using replace_name_no_token[of html] replace_name_first[of _ a rest]
    replace_name_no_token[of "personalize_csv html r"]
    replace_name_no_token[of "personalize_mails html r"]
  by (simp add: personalize_csv_def personalize_mails_def name_token_def recipient_name_cases)

text \<open>
  C5 as stated fails. With no name in the row, the body \<open>[Na[Name]me]\<close> becomes
  \<open>[Name]\<close>, and a second substitution turns that into the empty string: the
  substitution is not idempotent. And a name with a dollar pattern is not inserted as
  it is: \<open>A$$B\<close> is inserted as \<open>A$B\<close>.
\<close>

theorem name_substitution_counterexample:
  "personalize_csv ''[Na[Name]me]'' Map.empty = ''[Name]''
   \<and> personalize_csv (personalize_csv ''[Na[Name]me]'' Map.empty) Map.empty = []
   \<and> personalize_csv (personalize_csv ''[Na[Name]me]'' Map.empty) Map.empty
       \<noteq> personalize_csv ''[Na[Name]me]'' Map.empty
   \<and> personalize_csv ''Hi [Name]'' [''name'' \<mapsto> ''A$$B''] = ''Hi A$B''
   \<and> personalize_csv ''Hi [Name]'' [''name'' \<mapsto> ''A$$B'']
       \<noteq> ''Hi '' @ recipient_name [''name'' \<mapsto> ''A$$B''] []"
  by (simp add: personalize_csv_def replace_name_def name_token_def recipient_name_cases truthy_def)

theorem name_substitution_witness:
  "personalize_csv ''Hello there'' [''name'' \<mapsto> ''Ann''] = ''Hello there''
   \<and> personalize_csv ''Hello [Name]!'' [''name'' \<mapsto> ''Ann'']
       = ''Hello '' @ ''Ann'' @ personalize_csv ''!'' [''name'' \<mapsto> ''Ann'']
   \<and> personalize_mails ''Hello [Name]!'' Map.empty
       = ''Hello '' @ ''User'' @ personalize_mails ''!'' Map.empty
   \<and> recipient_name Map.empty [] = []
   \<and> personalize_csv (personalize_csv ''Hello there'' Map.empty) Map.empty
       = personalize_csv ''Hello there'' Map.empty
   \<and> personalize_mails (personalize_mails ''Hello there'' Map.empty) Map.empty
       = personalize_mails ''Hello there'' Map.empty"
  using name_substitution[of "''Hello there''" "[''name'' \<mapsto> ''Ann'']"]
    name_substitution[of _ "[''name'' \<mapsto> ''Ann'']" "''Hello ''" "''!''"]
    name_substitution[of "''Hello there''" Map.empty "''Hello ''" "''!''"]
  by (simp add: recipient_name_cases truthy_def)

section \<open>Properties of the image URL normalisation\<close>

lemma takeWhile_ident:
  "CHR ''/'' \<notin> set ident \<Longrightarrow> takeWhile (\<lambda>x. x \<noteq> CHR ''/'') (ident @ CHR ''/'' # rest) = ident"
  by (induction ident) auto

lemma match_d_file_path:
  assumes "ident \<noteq> []" "CHR ''/'' \<notin> set ident"
  shows "match_d (''/file/d/'' @ ident @ ''/view'') = Some ident"
  using assms takeWhile_ident[OF assms(2), of "''view''"] by simp

lemma match_d_open: "match_d ''/open'' = None"
  by simp

lemma match_d_uc: "match_d ''/uc'' = None"
  by simp

text \<open>
  C7. Whatever the parser, \<open>normalizeImageUrl\<close> returns its argument when the parser
  rejects it and when the host name does not contain \<open>drive.google.com\<close>. For a host
  name that does, it returns the same direct-view URL for the identifier \<open>ident\<close>
  whether the path is \<open>/file/d/ident/view\<close>, or the path is \<open>/open\<close> or \<open>/uc\<close> with
  \<open>ident\<close> as the \<open>id\<close> query parameter. The function is total: no input makes it throw.
\<close>

theorem normalizeImageUrl_direct_view:
  "(parse url = None \<longrightarrow> normalizeImageUrl parse url = url)
   \<and> (\<forall>u. parse url = Some u \<and> \<not> str_includes (hostname u) ''drive.google.com'' \<longrightarrow>
          normalizeImageUrl parse url = url)
   \<and> (\<forall>u. parse url = Some u \<and> str_includes (hostname u) ''drive.google.com''
          \<and> ident \<noteq> [] \<and> CHR ''/'' \<notin> set ident
          \<and> pathname u = ''/file/d/'' @ ident @ ''/view'' \<longrightarrow>
          normalizeImageUrl parse url = ''https://drive.google.com/uc?export=view&id='' @ ident)
   \<and> (\<forall>u. parse url = Some u \<and> str_includes (hostname u) ''drive.google.com''
          \<and> ident \<noteq> [] \<and> pathname u = ''/open''
          \<and> map_of (searchParams u) ''id'' = Some ident \<longrightarrow>
          normalizeImageUrl parse url = ''https://drive.google.com/uc?export=view&id='' @ ident)
   \<and> (\<forall>u. parse url = Some u \<and> str_includes (hostname u) ''drive.google.com''
          \<and> ident \<noteq> [] \<and> pathname u = ''/uc''
          \<and> map_of (searchParams u) ''id'' = Some ident \<longrightarrow>
          normalizeImageUrl parse url = ''https://drive.google.com/uc?export=view&id='' @ ident)"
proof (intro conjI allI impI)
  assume "parse url = None"
  then show "normalizeImageUrl parse url = url" by (simp add: normalizeImageUrl_def)
next
  fix u assume "parse url = Some u \<and> \<not> str_includes (hostname u) ''drive.google.com''"
  then show "normalizeImageUrl parse url = url" by (simp add: normalizeImageUrl_def)
next
  fix u assume h: "parse url = Some u \<and> str_includes (hostname u) ''drive.google.com''
          \<and> ident \<noteq> [] \<and> CHR ''/'' \<notin> set ident
          \<and> pathname u = ''/file/d/'' @ ident @ ''/view''"
  then have "match_d (pathname u) = Some ident" using match_d_file_path[of ident] by simp
  with h show "normalizeImageUrl parse url = ''https://drive.google.com/uc?export=view&id='' @ ident"
    by (simp add: normalizeImageUrl_def js_or_def truthy_def direct_view_def)
next
  fix u assume h: "parse url = Some u \<and> str_includes (hostname u) ''drive.google.com''
          \<and> ident \<noteq> [] \<and> pathname u = ''/open''
          \<and> map_of (searchParams u) ''id'' = Some ident"
  then have "match_d (pathname u) = None" using match_d_open by simp
  with h show "normalizeImageUrl parse url = ''https://drive.google.com/uc?export=view&id='' @ ident"
    by (simp add: normalizeImageUrl_def js_or_def truthy_def direct_view_def)
next
  fix u assume h: "parse url = Some u \<and> str_includes (hostname u) ''drive.google.com''
          \<and> ident \<noteq> [] \<and> pathname u = ''/uc''
          \<and> map_of (searchParams u) ''id'' = Some ident"
  then have "match_d (pathname u) = None" using match_d_uc by simp
  with h show "normalizeImageUrl parse url = ''https://drive.google.com/uc?export=view&id='' @ ident"
    by (simp add: normalizeImageUrl_def js_or_def truthy_def direct_view_def)
qed

theorem normalizeImageUrl_direct_view_witness:
  "normalizeImageUrl (\<lambda>s. None) ''not a url'' = ''not a url''
   \<and> normalizeImageUrl
        (\<lambda>s. Some \<lparr>hostname = ''example.com'', pathname = ''/a.png'', searchParams = []\<rparr>)
        ''https://example.com/a.png'' = ''https://example.com/a.png''
   \<and> normalizeImageUrl
        (\<lambda>s. Some \<lparr>hostname = ''drive.google.com'', pathname = ''/file/d/abc/view'',
                     searchParams = [(''usp'', ''sharing'')]\<rparr>)
        ''https://drive.google.com/file/d/abc/view?usp=sharing''
       = ''https://drive.google.com/uc?export=view&id=abc''
   \<and> normalizeImageUrl
        (\<lambda>s. Some \<lparr>hostname = ''drive.google.com'', pathname = ''/open'',
                     searchParams = [(''id'', ''abc'')]\<rparr>)
        ''https://drive.google.com/open?id=abc''
       = ''https://drive.google.com/uc?export=view&id=abc''
   \<and> normalizeImageUrl
        (\<lambda>s. Some \<lparr>hostname = ''drive.google.com'', pathname = ''/uc'',
                     searchParams = [(''export'', ''download''), (''id'', ''abc'')]\<rparr>)
        ''https://drive.google.com/uc?export=download&id=abc''
       = ''https://drive.google.com/uc?export=view&id=abc''"
  using normalizeImageUrl_direct_view [of "\<lambda>s. None" "''not a url''" "''abc''"]
    normalizeImageUrl_direct_view
      [of "\<lambda>s. Some \<lparr>hostname = ''example.com'', pathname = ''/a.png'', searchParams = []\<rparr>"
          "''https://example.com/a.png''" "''abc''"]
    normalizeImageUrl_direct_view
      [of "\<lambda>s. Some \<lparr>hostname = ''drive.google.com'', pathname = ''/file/d/abc/view'',
                     searchParams = [(''usp'', ''sharing'')]\<rparr>"
          "''https://drive.google.com/file/d/abc/view?usp=sharing''" "''abc''"]
    normalizeImageUrl_direct_view
      [of "\<lambda>s. Some \<lparr>hostname = ''drive.google.com'', pathname = ''/open'',
                     searchParams = [(''id'', ''abc'')]\<rparr>"
          "''https://drive.google.com/open?id=abc''" "''abc''"]
    normalizeImageUrl_direct_view
      [of "\<lambda>s. Some \<lparr>hostname = ''drive.google.com'', pathname = ''/uc'',
                     searchParams = [(''export'', ''download''), (''id'', ''abc'')]\<rparr>"
          "''https://drive.google.com/uc?export=download&id=abc''" "''abc''"]
  by simp

section \<open>Properties of the OTP code\<close>

lemma digit_char_is_digit: "d < 10 \<Longrightarrow> is_digit (digit_char d)"
  by (simp add: is_digit_def digit_char_def del: set_simps)

lemma digit_value_digit_char: "d < 10 \<Longrightarrow> digit_value (digit_char d) = Some d"
proof -
  assume "d < 10"
  then have "d \<in> {0, 1, 2, 3, 4, 5, 6, 7, 8, 9}" by auto
  then show ?thesis
    by (auto simp: digit_value_def digit_char_def)
qed

lemma digits_all_digits: "\<forall>c \<in> set (digits n). is_digit c"
proof (induction n rule: digits.induct)
  case (1 n)
  show ?case
  proof (cases "n < 10")
    case True
    then show ?thesis by (subst digits.simps) (simp add: digit_char_is_digit)
  next
    case False
    then show ?thesis using 1
      by (subst digits.simps) (simp add: digit_char_is_digit)
  qed
qed

lemma decimal_acc_append:
  "decimal_acc a (xs @ ys) = (case decimal_acc a xs of None \<Rightarrow> None | Some b \<Rightarrow> decimal_acc b ys)"
  by (induction xs arbitrary: a) (auto split: option.splits)

lemma decimal_acc_digits:
  "decimal_acc a (digits n) = Some (a * 10 ^ length (digits n) + n)"
proof (induction n arbitrary: a rule: digits.induct)
  case (1 n)
  show ?case
  proof (cases "n < 10")
    case True
    then show ?thesis
      by (subst (1 2) digits.simps) (simp add: digit_value_digit_char)
  next
    case False
    then have d: "digits n = digits (n div 10) @ [digit_char (n mod 10)]"
      by (subst digits.simps) simp
    have "decimal_acc a (digits n)
            = Some (10 * (a * 10 ^ length (digits (n div 10)) + n div 10) + n mod 10)"
      unfolding d using 1[OF False, of a]
      by (simp add: decimal_acc_append digit_value_digit_char)
    then show ?thesis unfolding d by (simp add: algebra_simps)
  qed
qed

lemma decimal_value_digits: "decimal_value (digits n) = Some n"
  by (simp add: decimal_value_def decimal_acc_digits digits_nonempty)

lemma length_digits:
  "n < 10 ^ Suc k \<Longrightarrow> k = 0 \<or> 10 ^ k \<le> n \<Longrightarrow> length (digits n) = Suc k"
proof (induction k arbitrary: n)
  case 0
  then show ?case by (subst digits.simps) simp
next
  case (Suc k)
  then have lo: "10 * 10 ^ k \<le> n" and hi: "n < 10 * 10 ^ Suc k" by simp_all
  from lo have ge: "\<not> n < 10"
    by (metis One_nat_def le_trans mult.right_neutral mult_le_mono2 not_less one_le_numeral one_le_power)
  have "n div 10 < 10 ^ Suc k" using hi by (simp add: less_mult_imp_div_less mult.commute)
  moreover have "10 ^ k \<le> n div 10" using lo by (simp add: less_eq_div_iff_mult_less_eq mult.commute)
  ultimately have "length (digits (n div 10)) = Suc k" using Suc.IH by blast
  then show ?case using ge by (subst digits.simps) simp
qed

lemma otp_number_range:
  assumes R: "binary64_rounding rnd" and r0: "0 \<le> r" and r1: "r \<le> 1 - 1 / 2 ^ 53"
  shows "100000 \<le> otp_number rnd r \<and> otp_number rnd r \<le> 999999"
proof -
  from R have mono: "\<And>x y. x \<le> y \<Longrightarrow> rnd x \<le> rnd y"
    and ints: "\<And>n::int. \<bar>n\<bar> \<le> 2 ^ 53 \<Longrightarrow> rnd (of_int n) = of_int n"
    and grid: "\<And>x. 2 ^ 19 \<le> x \<Longrightarrow> x \<le> 2 ^ 20 \<Longrightarrow> \<exists>k::int. rnd x = of_int k / 2 ^ 33"
    and near: "\<And>x. 2 ^ 19 \<le> x \<Longrightarrow> x \<le> 2 ^ 20 \<Longrightarrow> \<bar>rnd x - x\<bar> \<le> 1 / 2 ^ 34"
    unfolding binary64_rounding_def by blast+
  have f0: "rnd 0 = 0" using ints[of 0] by simp
  have f19: "rnd 524288 = 524288" using ints[of 524288] by simp
  have f5: "rnd 100000 = 100000" using ints[of 100000] by simp
  define p where "p = r * 900000"
  define t1 where "t1 = rnd p"
  define s where "s = 100000 + t1"
  define t2 where "t2 = rnd s"
  have p0: "0 \<le> p" using r0 by (simp add: p_def)
  have p1: "p \<le> 900000 - 900000 / 2 ^ 53" using r1 by (simp add: p_def)
  have t1_lo: "0 \<le> t1" using mono[OF p0] f0 by (simp add: t1_def)
  have t1_hi: "t1 \<le> 900000 - 1 / 2 ^ 33"
  proof (cases "p < 524288")
    case True
    then have "t1 \<le> 524288" using mono[of p 524288] f19 by (simp add: t1_def)
    then show ?thesis by simp
  next
    case False
    then have a: "2 ^ 19 \<le> p" by simp
    have b: "p \<le> 2 ^ 20" using p1 by simp
    from grid[OF a b] obtain k :: int where k: "t1 = of_int k / 2 ^ 33" by (auto simp: t1_def)
    have "t1 - p \<le> 1 / 2 ^ 34" unfolding t1_def by (rule abs_le_D1) (rule near[OF a b])
    then have "t1 \<le> p + 1 / 2 ^ 34" by linarith
    with p1 have "t1 < 900000" by simp
    with k have "real_of_int k < 900000 * 2 ^ 33" by (simp add: field_simps)
    then have "real_of_int k < real_of_int (900000 * 2 ^ 33)" by simp
    then have "k < 900000 * 2 ^ 33" by (simp only: of_int_less_iff)
    then have "k \<le> 900000 * 2 ^ 33 - 1" by simp
    then have "real_of_int k \<le> real_of_int (900000 * 2 ^ 33 - 1)" by (simp only: of_int_le_iff)
    then have "real_of_int k \<le> 900000 * 2 ^ 33 - 1" by simp
    with k show ?thesis by (simp add: field_simps)
  qed
  have s_lo: "100000 \<le> s" using t1_lo by (simp add: s_def)
  have s_hi: "s \<le> 1000000 - 1 / 2 ^ 33" using t1_hi by (simp add: s_def)
  have t2_lo: "100000 \<le> t2" using mono[OF s_lo] f5 by (simp add: t2_def)
  have t2_hi: "t2 < 1000000"
  proof (cases "s < 524288")
    case True
    then have "t2 \<le> 524288" using mono[of s 524288] f19 by (simp add: t2_def)
    then show ?thesis by simp
  next
    case False
    then have a: "2 ^ 19 \<le> s" by simp
    have b: "s \<le> 2 ^ 20" using s_hi by simp
    have "t2 - s \<le> 1 / 2 ^ 34" unfolding t2_def by (rule abs_le_D1) (rule near[OF a b])
    then have "t2 \<le> s + 1 / 2 ^ 34" by linarith
    with s_hi show ?thesis by simp
  qed
  have "otp_number rnd r = \<lfloor>t2\<rfloor>"
    by (simp add: otp_number_def t2_def s_def t1_def p_def)
  moreover have "100000 \<le> \<lfloor>t2\<rfloor>" using t2_lo by (simp add: le_floor_iff)
  moreover have "\<lfloor>t2\<rfloor> < 1000000" using t2_hi by (simp add: floor_less_iff)
  ultimately show ?thesis by simp
qed


lemma round33_int: "round33 (of_int n) = of_int n"
proof -
  have "(of_int n :: real) * 2 ^ 33 = of_int (n * 2 ^ 33)" by simp
  then have "round ((of_int n :: real) * 2 ^ 33) = n * 2 ^ 33"
    by (simp only: round_of_int)
  then show ?thesis by (simp add: round33_def)
qed

lemma round33_binary64: "binary64_rounding round33"
  unfolding binary64_rounding_def
proof (intro conjI allI impI)
  fix x y :: real assume "x \<le> y"
  then have "round (x * 2 ^ 33) \<le> round (y * 2 ^ 33)" by (intro round_mono) simp
  then show "round33 x \<le> round33 y" by (simp add: round33_def divide_right_mono)
next
  fix n :: int assume "\<bar>n\<bar> \<le> 2 ^ 53"
  show "round33 (of_int n) = of_int n" by (rule round33_int)
next
  fix x :: real assume "2 ^ 19 \<le> x \<and> x \<le> 2 ^ 20"
  show "\<exists>k::int. round33 x = of_int k / 2 ^ 33" by (auto simp: round33_def)
next
  fix x :: real assume "2 ^ 19 \<le> x \<and> x \<le> 2 ^ 20"
  define c :: real where "c = 2 ^ 33"
  have cpos: "0 < c" by (simp add: c_def)
  have "round33 x - x = (of_int (round (x * c)) - x * c) / c"
    unfolding round33_def c_def[symmetric] using cpos by (simp add: field_simps)
  then have "\<bar>round33 x - x\<bar> = \<bar>of_int (round (x * c)) - x * c\<bar> / c"
    using cpos by (simp add: abs_divide)
  also have "\<dots> \<le> (1 / 2) / c"
    using cpos of_int_round_abs_le[of "x * c"] by (intro divide_right_mono) simp_all
  finally show "\<bar>round33 x - x\<bar> \<le> 1 / 2 ^ 34" by (simp add: c_def)
qed

text \<open>
  C9. For every value \<open>r\<close> that \<open>Math.random()\<close> can return (a binary64 number from 0
  up to the largest one below 1, which is \<open>1 - 2^-53\<close>) and every rounding operator
  with the properties of binary64 round-to-nearest, the generated code is a string of
  exactly six characters, all of them decimal digits, and the number it denotes is the
  generated integer, which lies between 100000 and 999999.
\<close>

theorem otp_code_six_digits:
  assumes "binary64_rounding rnd" and "0 \<le> r" and "r \<le> 1 - 1 / 2 ^ 53"
  shows "length (otp_code rnd r) = 6
       \<and> (\<forall>c \<in> set (otp_code rnd r). is_digit c)
       \<and> decimal_value (otp_code rnd r) = Some (nat (otp_number rnd r))
       \<and> 100000 \<le> otp_number rnd r \<and> otp_number rnd r \<le> 999999"
proof -
  define n where "n = nat (otp_number rnd r)"
  from otp_number_range[OF assms] have rng: "100000 \<le> otp_number rnd r" "otp_number rnd r \<le> 999999"
    by simp_all
  then have code: "otp_code rnd r = digits n"
    by (simp add: otp_code_def toString_def n_def)
  from rng have "n < 10 ^ Suc 5" "10 ^ 5 \<le> n" by (simp_all add: n_def)
  then have "length (digits n) = Suc 5" by (intro length_digits) simp_all
  then have "length (otp_code rnd r) = 6" by (simp add: code)
  moreover have "\<forall>c \<in> set (otp_code rnd r). is_digit c"
    unfolding code by (rule digits_all_digits)
  moreover have "decimal_value (otp_code rnd r) = Some (nat (otp_number rnd r))"
    unfolding code by (simp add: decimal_value_digits n_def)
  ultimately show ?thesis using rng by blast
qed

theorem otp_code_six_digits_witness:
  "binary64_rounding round33 \<and> (0::real) \<le> 1 / 2 \<and> (1 / 2 :: real) \<le> 1 - 1 / 2 ^ 53
   \<and> otp_number round33 (1 / 2) = 550000
   \<and> length (otp_code round33 (1 / 2)) = 6
   \<and> decimal_value (otp_code round33 (1 / 2)) = Some 550000"
proof -
  have a: "round33 450000 = 450000" using round33_int[of 450000] by simp
  have b: "round33 550000 = 550000" using round33_int[of 550000] by simp
  have n: "otp_number round33 (1 / 2) = 550000"
    by (simp add: otp_number_def a b)
  have h1: "(0::real) \<le> 1 / 2" by simp
  have h2: "(1 / 2 :: real) \<le> 1 - 1 / 2 ^ 53" by simp
  show ?thesis
    using otp_code_six_digits[OF round33_binary64 h1 h2] n h1 h2 round33_binary64
    by simp
qed

end
